theory Spec2Isabelle
  imports Complex_Main
begin

section \<open>Conventions of the embedding\<close>

text \<open>
  The program is \<^verbatim>\<open>src/SAC.py\<close>: a Soft Actor-Critic agent with an optional
  distributionally robust reward backup. Tensors of floats are modelled over the reals
  (no rounding, no overflow): a vector is a \<open>real list\<close>, a batch is a list of rows.
  Random draws (\<^verbatim>\<open>torch.randint\<close>, \<^verbatim>\<open>rsample\<close>) are explicit arguments: the
  function is given the outcome of the draw. Every Python exception the modelled code can
  raise is a value of \<open>error\<close>, and a fallible function returns \<open>error + 'a\<close>.
\<close>

type_synonym vec = "real list"

datatype error =
    IndexError
  | RandintEmptyRange
  | ZeroDivisionError
  | ValueError
  | AssertionError
  | TypeError
  | UnboundLocalError

section \<open>ReplayBuffer\<close>

text \<open>
  \<^verbatim>\<open>
  class ReplayBuffer(object):
      def __init__(self, state_dim, action_dim, max_size, device):
          self.max_size = max_size
          self.ptr = 0
          self.size = 0
          self.s = torch.zeros((max_size, state_dim)); self.a = torch.zeros((max_size, action_dim))
          self.r = torch.zeros((max_size, 1)); self.s_next = torch.zeros((max_size, state_dim))
          self.dw = torch.zeros((max_size, 1), dtype=torch.bool)
  \<close>
  The five arrays are five lists of \<open>max_size\<close> rows. The fields \<open>s, a, r, s_next, dw,
  size\<close> carry the suffix \<open>_buf\<close>, since a record field is a constant of the theory.
\<close>

record ReplayBuffer =
  max_size :: nat
  ptr :: nat
  size_buf :: nat
  s_buf :: "vec list"
  a_buf :: "vec list"
  r_buf :: "real list"
  s_next_buf :: "vec list"
  dw_buf :: "bool list"

definition ReplayBuffer_init :: "nat \<Rightarrow> nat \<Rightarrow> nat \<Rightarrow> ReplayBuffer" where
  "ReplayBuffer_init state_dim action_dim msize =
     \<lparr> max_size = msize, ptr = 0, size_buf = 0,
       s_buf = replicate msize (replicate state_dim 0),
       a_buf = replicate msize (replicate action_dim 0),
       r_buf = replicate msize 0,
       s_next_buf = replicate msize (replicate state_dim 0),
       dw_buf = replicate msize False \<rparr>"

text \<open>A stored transition: what one call of \<^verbatim>\<open>add(s, a, r, s_next, dw)\<close> is given.\<close>

record transition =
  t_s :: vec
  t_a :: vec
  t_r :: real
  t_s_next :: vec
  t_dw :: bool

text \<open>
  \<^verbatim>\<open>
  def add(self, s, a, r, s_next, dw):
      self.s[self.ptr] = torch.from_numpy(s).to(self.device)
      self.a[self.ptr] = torch.from_numpy(a).to(self.device)
      self.r[self.ptr] = r
      self.s_next[self.ptr] = torch.from_numpy(s_next).to(self.device)
      self.dw[self.ptr] = dw
      self.ptr = (self.ptr + 1) % self.max_size
      self.size = min(self.size + 1, self.max_size)
  \<close>
  The first indexed store raises IndexError when the cursor is not a row of the array
  (capacity 0); the rows given are taken to have the arrays' row shape.
\<close>

definition add :: "ReplayBuffer \<Rightarrow> transition \<Rightarrow> error + ReplayBuffer" where
  "add b t =
     (if ptr b < length (s_buf b) then
        Inr (b \<lparr> s_buf := (s_buf b)[ptr b := t_s t],
                 a_buf := (a_buf b)[ptr b := t_a t],
                 r_buf := (r_buf b)[ptr b := t_r t],
                 s_next_buf := (s_next_buf b)[ptr b := t_s_next t],
                 dw_buf := (dw_buf b)[ptr b := t_dw t],
                 ptr := (ptr b + 1) mod max_size b,
                 size_buf := min (size_buf b + 1) (max_size b) \<rparr>)
      else Inl IndexError)"

text \<open>A sequence of \<^verbatim>\<open>add\<close> calls, as the driver's loop issues them; the first
  exception ends the run.\<close>

fun add_all :: "ReplayBuffer \<Rightarrow> transition list \<Rightarrow> error + ReplayBuffer" where
  "add_all b [] = Inr b"
| "add_all b (t # ts) = (case add b t of Inl e \<Rightarrow> Inl e | Inr b' \<Rightarrow> add_all b' ts)"


text \<open>
  \<^verbatim>\<open>
  def sample(self, batch_size):
      ind = torch.randint(0, self.size, device=self.device, size=(batch_size,))
      return self.s[ind], self.a[ind], self.r[ind], self.s_next[ind], self.dw[ind]
  \<close>
  \<^verbatim>\<open>torch.randint(low, high, size)\<close> refuses an empty range (\<open>high \<le> low\<close>); otherwise it
  returns \<open>size\<close> integers of \<open>[low, high)\<close>, each drawn independently, so repeats are
  possible. The integers drawn are the argument \<open>draw\<close>, of which \<open>size\<close> are taken;
  \<open>randint_outcome\<close> says which lists are outcomes. Indexing an array by a list of indices raises IndexError on an index that is
  not a row.
\<close>

definition randint_outcome :: "nat \<Rightarrow> nat \<Rightarrow> nat \<Rightarrow> nat list \<Rightarrow> bool" where
  "randint_outcome low high n draw =
     (length draw = n \<and> list_all (\<lambda>i. low \<le> i \<and> i < high) draw)"

definition randint :: "nat \<Rightarrow> nat \<Rightarrow> nat \<Rightarrow> nat list \<Rightarrow> error + nat list" where
  "randint low high n draw = (if high \<le> low then Inl RandintEmptyRange else Inr (take n draw))"

definition index_rows :: "'a list \<Rightarrow> nat list \<Rightarrow> error + 'a list" where
  "index_rows xs ind =
     (if list_all (\<lambda>i. i < length xs) ind then Inr (map (\<lambda>i. xs ! i) ind) else Inl IndexError)"

type_synonym batch = "vec list \<times> vec list \<times> real list \<times> vec list \<times> bool list"

definition sample :: "ReplayBuffer \<Rightarrow> nat \<Rightarrow> nat list \<Rightarrow> error + batch" where
  "sample b batch_sz draw =
     (case randint 0 (size_buf b) batch_sz draw of
        Inl e \<Rightarrow> Inl e
      | Inr ind \<Rightarrow>
          (case index_rows (s_buf b) ind of Inl e \<Rightarrow> Inl e | Inr bs \<Rightarrow>
          (case index_rows (a_buf b) ind of Inl e \<Rightarrow> Inl e | Inr ba \<Rightarrow>
          (case index_rows (r_buf b) ind of Inl e \<Rightarrow> Inl e | Inr br \<Rightarrow>
          (case index_rows (s_next_buf b) ind of Inl e \<Rightarrow> Inl e | Inr bn \<Rightarrow>
          (case index_rows (dw_buf b) ind of Inl e \<Rightarrow> Inl e | Inr bd \<Rightarrow>
             Inr (bs, ba, br, bn, bd)))))))"

section \<open>Action scaling\<close>



section \<open>Actor\<close>

text \<open>
  The three sub-networks of the actor (\<^verbatim>\<open>build_net\<close> and \<^verbatim>\<open>nn.Linear\<close>, with their
  current parameters) are functions on one row of the batch.
\<close>

record Actor =
  a_net :: "vec \<Rightarrow> vec"
  mu_layer :: "vec \<Rightarrow> vec"
  log_std_layer :: "vec \<Rightarrow> vec"

definition LOG_STD_MAX :: real where "LOG_STD_MAX = 2"
definition LOG_STD_MIN :: real where "LOG_STD_MIN = - 20"

text \<open>\<^verbatim>\<open>torch.clamp(x, lo, hi)\<close> is \<open>min (max x lo) hi\<close>.\<close>

definition clamp :: "real \<Rightarrow> real \<Rightarrow> real \<Rightarrow> real" where
  "clamp x lo hi = min (max x lo) hi"

text \<open>
  \<^verbatim>\<open>F.softplus(x)\<close> is \<open>ln (1 + exp x)\<close>. (Above its threshold 20 the library returns \<open>x\<close>
  itself, which is what \<open>ln (1 + exp x)\<close> rounds to in single precision: part of the
  rounding that this embedding leaves out.)
\<close>

definition softplus :: "real \<Rightarrow> real" where
  "softplus x = ln (1 + exp x)"

text \<open>
  \<^verbatim>\<open>Normal(loc, scale).log_prob(value)\<close> computes
  \<^verbatim>\<open>-((value - loc) ** 2) / (2 * scale ** 2) - log(scale) - log(sqrt(2 * pi))\<close>, and
  \<^verbatim>\<open>rsample()\<close> computes \<^verbatim>\<open>loc + eps * scale\<close> from standard normal noise \<open>eps\<close>
  (given here per dimension).
\<close>

definition Normal_log_prob :: "real \<Rightarrow> real \<Rightarrow> real \<Rightarrow> real" where
  "Normal_log_prob loc scale v = - ((v - loc)\<^sup>2) / (2 * scale\<^sup>2) - ln scale - ln (sqrt (2 * pi))"

definition Normal_rsample :: "vec \<Rightarrow> vec \<Rightarrow> (nat \<Rightarrow> real) \<Rightarrow> vec" where
  "Normal_rsample loc scale eps =
     map (\<lambda>(j, m, sd). m + eps j * sd) (zip [0..<length loc] (zip loc scale))"

text \<open>
  \<^verbatim>\<open>
  def forward(self, state, deterministic, with_logprob):
      net_out = self.a_net(state)
      mu = self.mu_layer(net_out)
      log_std = self.log_std_layer(net_out)
      log_std = torch.clamp(log_std, self.LOG_STD_MIN, self.LOG_STD_MAX)
      std = torch.exp(log_std)
      dist = Normal(mu, std)
      u = mu if deterministic else dist.rsample()
      a = torch.tanh(u)
      if with_logprob:
          logp_pi_a = dist.log_prob(u).sum(axis=1, keepdim=True)
                      - (2 * (np.log(2) - u - F.softplus(-2 * u))).sum(axis=1, keepdim=True)
      else:
          logp_pi_a = None
      return a, logp_pi_a
  \<close>
  \<open>Actor_dist\<close> is the first five lines on one row (mean and standard deviation),
  \<open>Actor_u\<close> the pre-squash sample of the row, \<open>Actor_logp\<close> the log-probability of the
  row. The noise of row \<open>i\<close>, dimension \<open>j\<close> is \<open>eps i j\<close>; it is read in the stochastic branch
  only.
\<close>

definition Actor_dist :: "Actor \<Rightarrow> vec \<Rightarrow> vec \<times> vec" where
  "Actor_dist net state =
     (let net_out = a_net net state;
          mu = mu_layer net net_out;
          log_std = log_std_layer net net_out;
          log_std = map (\<lambda>x. clamp x LOG_STD_MIN LOG_STD_MAX) log_std;
          std = map exp log_std
      in (mu, std))"

definition Actor_u :: "Actor \<Rightarrow> vec \<Rightarrow> bool \<Rightarrow> (nat \<Rightarrow> real) \<Rightarrow> vec" where
  "Actor_u net state deterministic eps =
     (let (mu, std) = Actor_dist net state
      in if deterministic then mu else Normal_rsample mu std eps)"

definition Actor_logp :: "vec \<Rightarrow> vec \<Rightarrow> vec \<Rightarrow> real" where
  "Actor_logp mu std u =
     sum_list (map (\<lambda>(m, sd, x). Normal_log_prob m sd x) (zip mu (zip std u)))
     - sum_list (map (\<lambda>x. 2 * (ln 2 - x - softplus (- 2 * x))) u)"

definition Actor_forward ::
  "Actor \<Rightarrow> vec list \<Rightarrow> bool \<Rightarrow> bool \<Rightarrow> (nat \<Rightarrow> nat \<Rightarrow> real) \<Rightarrow> vec list \<times> real list option" where
  "Actor_forward net state deterministic with_logprob eps =
     (let rows = zip [0..<length state] state;
          a = map (\<lambda>(i, st). map tanh (Actor_u net st deterministic (eps i))) rows;
          logp_pi_a =
            (if with_logprob then
               Some (map (\<lambda>(i, st). Actor_logp (fst (Actor_dist net st)) (snd (Actor_dist net st))
                                      (Actor_u net st deterministic (eps i))) rows)
             else None)
      in (a, logp_pi_a))"

section \<open>Double_Q_Critic\<close>

text \<open>
  \<^verbatim>\<open>
  def forward(self, state, action):
      sa = torch.cat([state, action], 1)
      q1 = self.Q_1(sa)
      q2 = self.Q_2(sa)
      return q1, q2
  \<close>
  A critic is the parameters of its two networks, as two flat lists of reals; the
  architecture \<^verbatim>\<open>build_net(layers, nn.ReLU, nn.Identity)\<close> is a function \<open>qnet\<close> from
  parameters and one input row to one output row.
\<close>

record Double_Q_Critic =
  Q_1 :: "real list"
  Q_2 :: "real list"

definition Double_Q_Critic_forward ::
  "(real list \<Rightarrow> vec \<Rightarrow> vec) \<Rightarrow> Double_Q_Critic \<Rightarrow> vec list \<Rightarrow> vec list \<Rightarrow> vec list \<times> vec list" where
  "Double_Q_Critic_forward qnet cr state action =
     (let sa = map (\<lambda>(st, ac). st @ ac) (zip state action);
          q1 = map (qnet (Q_1 cr)) sa;
          q2 = map (qnet (Q_2 cr)) sa
      in (q1, q2))"

section \<open>Reward\<close>

text \<open>
  \<^verbatim>\<open>
  def forward(self, state, action):
      sa = torch.cat([state, action], 1)
      r_out = self.rnet(sa)
      if self.rtype == 'continuous':
          mu = self.mu_layer(r_out)
          log_std = self.log_std_layer(r_out)
          std = torch.exp(log_std)
          dist = Normal(mu, std)
          r = dist.rsample()
      else:
          logits = self.r_layer[r_out]
          probs = F.softmax(logits, dim=1)
      return r

  def sample(self, state, action, num):
      if self.rtype == 'continuous':
          sa = torch.cat([state, action], 1)
          r_out = self.rnet(sa)
          mu = self.mu_layer(r_out)
          log_std = self.log_std_layer(r_out)
          std = torch.exp(log_std)
          dist = Normal(mu, std)
          r = dist.rsample(sample_shape=(num,)) #shape = (num, batch_size, 1)
          r = r.permute(1, 0, 2).squeeze(-1) #shape = (batch_size, num)
      return r
  \<close>
  The two heads of the continuous model have one output each. In the other branch of
  \<^verbatim>\<open>forward\<close>, \<^verbatim>\<open>self.r_layer[r_out]\<close> subscripts an \<^verbatim>\<open>nn.Linear\<close>, which Python refuses
  with TypeError before anything else of the branch runs; \<^verbatim>\<open>sample\<close> then reaches
  \<^verbatim>\<open>return r\<close> with \<open>r\<close> never assigned, which is UnboundLocalError.
\<close>

record Reward =
  rtype :: string
  rnet :: "vec \<Rightarrow> vec"
  mu_layer_r :: "vec \<Rightarrow> real"
  log_std_layer_r :: "vec \<Rightarrow> real"

definition Reward_forward ::
  "Reward \<Rightarrow> vec list \<Rightarrow> vec list \<Rightarrow> (nat \<Rightarrow> real) \<Rightarrow> error + real list" where
  "Reward_forward rw state action eps =
     (let sa = map (\<lambda>(st, ac). st @ ac) (zip state action);
          r_out = map (rnet rw) sa
      in if rtype rw = ''continuous'' then
           Inr (map (\<lambda>(i, ro). let mu = mu_layer_r rw ro;
                                   log_std = log_std_layer_r rw ro;
                                   std = exp log_std
                               in mu + eps i * std)
                    (zip [0..<length r_out] r_out))
         else Inl TypeError)"

definition Reward_sample ::
  "Reward \<Rightarrow> vec list \<Rightarrow> vec list \<Rightarrow> nat \<Rightarrow> (nat \<Rightarrow> nat \<Rightarrow> real) \<Rightarrow> error + real list list" where
  "Reward_sample rw state action num eps =
     (if rtype rw = ''continuous'' then
        (let sa = map (\<lambda>(st, ac). st @ ac) (zip state action);
             r_out = map (rnet rw) sa
         in Inr (map (\<lambda>(i, ro). let mu = mu_layer_r rw ro;
                                    log_std = log_std_layer_r rw ro;
                                    std = exp log_std
                                in map (\<lambda>k. mu + eps k i * std) [0..<num])
                     (zip [0..<length r_out] r_out)))
      else Inl UnboundLocalError)"

section \<open>The uncertainty radius\<close>

text \<open>
  \<^verbatim>\<open>
  if self.robust:
      train_var = self.train_std ** 2
      eval_var = self.eval_std ** 2
      self.delta = 0.5*(eval_var / train_var + math.log(train_var / eval_var)- 1)
      assert self.delta >= 0
  \<close>
  Python's float division raises ZeroDivisionError on a zero divisor, \<^verbatim>\<open>math.log\<close> raises
  ValueError outside the positive reals, and a failed \<^verbatim>\<open>assert\<close> raises AssertionError.
\<close>

definition assert_delta :: "real \<Rightarrow> error + real" where
  "assert_delta dlt = (if dlt \<ge> 0 then Inr dlt else Inl AssertionError)"

definition robust_delta :: "real \<Rightarrow> real \<Rightarrow> error + real" where
  "robust_delta train_std eval_std =
     (let train_var = train_std\<^sup>2;
          eval_var = eval_std\<^sup>2
      in if train_var = 0 then Inl ZeroDivisionError
         else if eval_var = 0 then Inl ZeroDivisionError
         else if train_var / eval_var \<le> 0 then Inl ValueError
         else assert_delta (0.5 * (eval_var / train_var + ln (train_var / eval_var) - 1)))"

section \<open>SAC_countinuous\<close>

text \<open>
  The agent. The optimizers (\<^verbatim>\<open>torch.optim.Adam\<close>) keep a state of their own, of a type
  \<open>'o\<close> left open. In non-robust mode the attributes \<open>delta\<close>, \<open>reward\<close>,
  \<open>reward_optimizer\<close>, \<open>beta\<close> and \<open>beta_optimizer\<close> do not exist in the program and are
  never read, and likewise \<open>target_entropy\<close>, \<open>log_alpha\<close> and \<open>alpha_optim\<close> without
  \<open>adaptive_alpha\<close>; the record carries values for them all the same.
\<close>

record 'o SAC =
  robust :: bool
  delta :: real
  tau :: real
  gamma :: real
  alpha :: real
  adaptive_alpha :: bool
  batch_size :: nat
  actor :: Actor
  actor_optimizer :: 'o
  q_critic :: Double_Q_Critic
  q_critic_optimizer :: 'o
  q_critic_target :: Double_Q_Critic
  reward :: Reward
  reward_optimizer :: 'o
  beta :: "real list"
  beta_optimizer :: 'o
  replay_buffer :: ReplayBuffer
  target_entropy :: real
  log_alpha :: real
  alpha_optim :: 'o

text \<open>
  What the program takes from the libraries and from \<^verbatim>\<open>utils.build_net\<close>: the critic's
  architecture \<open>qnet\<close>, and one optimizer step for each optimizer. A step
  (\<^verbatim>\<open>zero_grad(); loss.backward(); step()\<close>) is given the optimizer's state, the current
  value of what it optimizes, and the loss as a function of that value; it returns the
  new value and the new state.
\<close>

record 'o torch =
  qnet :: "real list \<Rightarrow> vec \<Rightarrow> vec"
  adam_actor :: "'o \<Rightarrow> Actor \<Rightarrow> (Actor \<Rightarrow> real) \<Rightarrow> Actor \<times> 'o"
  adam_critic :: "'o \<Rightarrow> Double_Q_Critic \<Rightarrow> (Double_Q_Critic \<Rightarrow> real) \<Rightarrow> Double_Q_Critic \<times> 'o"
  adam_reward :: "'o \<Rightarrow> Reward \<Rightarrow> (Reward \<Rightarrow> real) \<Rightarrow> Reward \<times> 'o"
  adam_beta :: "'o \<Rightarrow> real list \<Rightarrow> (real list \<Rightarrow> real) \<Rightarrow> real list \<times> 'o"
  adam_alpha :: "'o \<Rightarrow> real \<Rightarrow> (real \<Rightarrow> real) \<Rightarrow> real \<times> 'o"

text \<open>
  \<^verbatim>\<open>
  def __init__(self, **kwargs):
      self.__dict__.update(kwargs)
      if self.robust:
          ... self.delta = ...; assert self.delta >= 0
      self.tau = 0.005
      self.actor = Actor(...); self.actor_optimizer = torch.optim.Adam(...)
      self.q_critic = Double_Q_Critic(...); self.q_critic_optimizer = torch.optim.Adam(...)
      self.q_critic_target = copy.deepcopy(self.q_critic)
      for p in self.q_critic_target.parameters():
          p.requires_grad = False
      if self.robust:
          self.reward = Reward(...); self.reward_optimizer = torch.optim.Adam(...)
          self.beta = torch.zeros((self.batch_size, 1), requires_grad=True, device=self.device)
          self.beta_optimizer = torch.optim.Adam([self.beta], lr=self.b_lr)
      self.replay_buffer = ReplayBuffer(self.state_dim, self.action_dim, max_size=int(1e6), ...)
      if self.adaptive_alpha:
          self.target_entropy = torch.tensor(-self.action_dim, ...)
          self.log_alpha = torch.tensor(np.log(self.alpha), ...)
          self.alpha_optim = torch.optim.Adam([self.log_alpha], lr=self.c_lr)
  \<close>
  The keyword arguments read here, with the freshly initialised networks and optimizer
  state, are the record \<open>kwargs\<close>.
\<close>

record 'o kwargs =
  kw_robust :: bool
  kw_train_std :: real
  kw_eval_std :: real
  kw_gamma :: real
  kw_alpha :: real
  kw_adaptive_alpha :: bool
  kw_batch_size :: nat
  kw_state_dim :: nat
  kw_action_dim :: nat
  new_actor :: Actor
  new_critic :: Double_Q_Critic
  new_reward :: Reward
  new_adam :: 'o

definition SAC_init :: "'o kwargs \<Rightarrow> error + 'o SAC" where
  "SAC_init kw =
     (case (if kw_robust kw then robust_delta (kw_train_std kw) (kw_eval_std kw) else Inr 0) of
        Inl e \<Rightarrow> Inl e
      | Inr d \<Rightarrow>
          Inr \<lparr> robust = kw_robust kw,
                delta = d,
                tau = 0.005,
                gamma = kw_gamma kw,
                alpha = kw_alpha kw,
                adaptive_alpha = kw_adaptive_alpha kw,
                batch_size = kw_batch_size kw,
                actor = new_actor kw,
                actor_optimizer = new_adam kw,
                q_critic = new_critic kw,
                q_critic_optimizer = new_adam kw,
                q_critic_target = new_critic kw,
                reward = new_reward kw,
                reward_optimizer = new_adam kw,
                beta = replicate (kw_batch_size kw) 0,
                beta_optimizer = new_adam kw,
                replay_buffer = ReplayBuffer_init (kw_state_dim kw) (kw_action_dim kw) 1000000,
                target_entropy = - real (kw_action_dim kw),
                log_alpha = ln (kw_alpha kw),
                alpha_optim = new_adam kw \<rparr>)"

text \<open>
  \<^verbatim>\<open>
  def select_action(self, state, deterministic):
      with torch.no_grad():
          state = torch.FloatTensor(state[np.newaxis,:]).to(self.device)
          a, _ = self.actor(state, deterministic, with_logprob=False)
      return a.cpu().numpy()[0]
  \<close>
\<close>

definition select_action :: "'o SAC \<Rightarrow> vec \<Rightarrow> bool \<Rightarrow> (nat \<Rightarrow> nat \<Rightarrow> real) \<Rightarrow> error + vec" where
  "select_action ag state deterministic eps =
     (let state = [state];
          (a, _) = Actor_forward (actor ag) state deterministic False eps
      in case a of [] \<Rightarrow> Inl IndexError | a0 # _ \<Rightarrow> Inr a0)"

subsection \<open>The pieces of train\<close>

text \<open>
  \<^verbatim>\<open>F.mse_loss(x, y)\<close> is the mean of the squared differences over all elements;
  \<^verbatim>\<open>torch.logsumexp(x, dim=1)\<close> is the logarithm of the sum of the exponentials of a row.
\<close>

definition mse_loss :: "real list \<Rightarrow> real list \<Rightarrow> real" where
  "mse_loss xs ys = sum_list (map (\<lambda>(x, y). (x - y)\<^sup>2) (zip xs ys)) / real (length xs)"

definition mean :: "real list \<Rightarrow> real" where
  "mean xs = sum_list xs / real (length xs)"

definition logsumexp :: "real list \<Rightarrow> real" where
  "logsumexp xs = ln (sum_list (map exp xs))"

text \<open>
  \<^verbatim>\<open>
  def dual_func(r, beta):
      size = r_sample.shape[1]
      return - beta * (torch.logsumexp(-r/beta, dim=1, keepdim=True) - math.log(size)) - beta * self.delta
  \<close>
  \<open>r\<close> is the matrix \<open>r_sample\<close> (one row per batch element), \<open>beta\<close> has one entry per batch
  element.
\<close>

definition dual_func :: "real list list \<Rightarrow> real list \<Rightarrow> real \<Rightarrow> real list" where
  "dual_func r bt dlt =
     (let size = (case r of [] \<Rightarrow> 0 | row # _ \<Rightarrow> length row)
      in map (\<lambda>(row, b). - b * (logsumexp (map (\<lambda>x. - x / b) row) - ln (real size)) - b * dlt)
             (zip r bt))"

text \<open>
  \<^verbatim>\<open>
  for _ in range(10):
      self.exp_beta = torch.exp(self.beta)
      opt_loss = -dual_func(r_sample, self.exp_beta)
      self.beta_optimizer.zero_grad()
      opt_loss.sum().backward()
      self.beta_optimizer.step()
  \<close>
  The first argument counts the iterations left.
\<close>

definition opt_loss_sum :: "real list list \<Rightarrow> real \<Rightarrow> real list \<Rightarrow> real" where
  "opt_loss_sum r_sample dlt bt = sum_list (map uminus (dual_func r_sample (map exp bt) dlt))"

fun dual_loop ::
  "nat \<Rightarrow> ('o \<Rightarrow> real list \<Rightarrow> (real list \<Rightarrow> real) \<Rightarrow> real list \<times> 'o) \<Rightarrow> real list list \<Rightarrow> real
     \<Rightarrow> real list \<times> 'o \<Rightarrow> real list \<times> 'o" where
  "dual_loop 0 step r_sample dlt st = st"
| "dual_loop (Suc k) step r_sample dlt (bt, ost) =
     dual_loop k step r_sample dlt (step ost bt (opt_loss_sum r_sample dlt))"

text \<open>
  \<^verbatim>\<open>
  if self.robust:
      r_pred = self.reward(s, a)
      r_loss = F.mse_loss(r_pred, r)
      self.reward_optimizer.zero_grad(); r_loss.backward(); self.reward_optimizer.step()
      with torch.no_grad():
          r_sample = self.reward.sample(s, a, 50)
      ... the loop above ...
      r_opt = dual_func(r_sample, torch.exp(self.beta))
  \<close>
  The block returns the agent with the reward model and the dual variable updated, and
  \<open>r_opt\<close>.
\<close>

definition r_loss :: "vec list \<Rightarrow> vec list \<Rightarrow> real list \<Rightarrow> (nat \<Rightarrow> real) \<Rightarrow> Reward \<Rightarrow> real" where
  "r_loss s a r eps rw =
     (case Reward_forward rw s a eps of Inl _ \<Rightarrow> 0 | Inr r_pred \<Rightarrow> mse_loss r_pred r)"

definition robust_block ::
  "'o torch \<Rightarrow> 'o SAC \<Rightarrow> vec list \<Rightarrow> vec list \<Rightarrow> real list \<Rightarrow> (nat \<Rightarrow> real) \<Rightarrow> (nat \<Rightarrow> nat \<Rightarrow> real)
     \<Rightarrow> error + ('o SAC \<times> real list)" where
  "robust_block th ag s a r eps_r eps_sample =
     (case Reward_forward (reward ag) s a eps_r of
        Inl e \<Rightarrow> Inl e
      | Inr r_pred \<Rightarrow>
          (let (rw, rost) = adam_reward th (reward_optimizer ag) (reward ag) (r_loss s a r eps_r)
           in case Reward_sample rw s a 50 eps_sample of
                Inl e \<Rightarrow> Inl e
              | Inr r_sample \<Rightarrow>
                  (let (bt, bost) = dual_loop 10 (adam_beta th) r_sample (delta ag)
                                      (beta ag, beta_optimizer ag);
                       r_opt = dual_func r_sample (map exp bt) (delta ag)
                   in Inr (ag \<lparr> reward := rw, reward_optimizer := rost,
                                 beta := bt, beta_optimizer := bost \<rparr>, r_opt))))"

text \<open>
  \<^verbatim>\<open>
  with torch.no_grad():
      a_next, log_pi_a_next = self.actor(s_next, deterministic=False, with_logprob=True)
      target_Q1, target_Q2 = self.q_critic_target(s_next, a_next)
      target_Q = torch.min(target_Q1, target_Q2)
      if self.robust:
          target_Q = r_opt + (~dw) * self.gamma * (target_Q - self.alpha * log_pi_a_next)
      else:
          target_Q = r + (~dw) * self.gamma * (target_Q - self.alpha * log_pi_a_next)
  \<close>
  \<open>r\<close>, \<open>r_opt\<close>, \<open>dw\<close> and \<open>log_pi_a_next\<close> have one entry per batch element, broadcast
  over the row of critic outputs; \<open>~dw\<close> times a float is 0 where \<open>dw\<close> holds and the
  float elsewhere. \<open>r_opt\<close> is assigned in robust mode only.
\<close>

definition bellman :: "real \<Rightarrow> real \<Rightarrow> real list \<Rightarrow> bool list \<Rightarrow> vec list \<Rightarrow> real list \<Rightarrow> vec list" where
  "bellman gm al r_used dw target_Q log_pi_a_next =
     map (\<lambda>(ru, d, q, l). map (\<lambda>x. ru + (if d then 0 else 1) * gm * (x - al * l)) q)
         (zip r_used (zip dw (zip target_Q log_pi_a_next)))"

definition Q_target ::
  "'o torch \<Rightarrow> 'o SAC \<Rightarrow> real list \<Rightarrow> real list option \<Rightarrow> vec list \<Rightarrow> bool list
     \<Rightarrow> (nat \<Rightarrow> nat \<Rightarrow> real) \<Rightarrow> error + vec list" where
  "Q_target th ag r r_opt s_next dw eps_next =
     (case Actor_forward (actor ag) s_next False True eps_next of
        (a_next, None) \<Rightarrow> Inl TypeError
      | (a_next, Some log_pi_a_next) \<Rightarrow>
          (let (target_Q1, target_Q2) = Double_Q_Critic_forward (qnet th) (q_critic_target ag) s_next a_next;
               target_Q = map (\<lambda>(q1, q2). map (\<lambda>(x, y). min x y) (zip q1 q2)) (zip target_Q1 target_Q2)
           in if robust ag then
                (case r_opt of
                   None \<Rightarrow> Inl UnboundLocalError
                 | Some ro \<Rightarrow> Inr (bellman (gamma ag) (alpha ag) ro dw target_Q log_pi_a_next))
              else Inr (bellman (gamma ag) (alpha ag) r dw target_Q log_pi_a_next)))"

text \<open>
  \<^verbatim>\<open>
  current_Q1, current_Q2 = self.q_critic(s, a)
  q_loss = F.mse_loss(current_Q1, target_Q) + F.mse_loss(current_Q2, target_Q)
  ...
  a, log_pi_a = self.actor(s, deterministic=False, with_logprob=True)
  current_Q1, current_Q2 = self.q_critic(s, a)
  Q = torch.min(current_Q1, current_Q2)
  a_loss = (self.alpha * log_pi_a - Q).mean()
  ...
  alpha_loss = -(self.log_alpha * (log_pi_a + self.target_entropy).detach()).mean()
  \<close>
  The three losses, each as a function of what its optimizer changes.
\<close>

definition q_loss :: "'o torch \<Rightarrow> vec list \<Rightarrow> vec list \<Rightarrow> vec list \<Rightarrow> Double_Q_Critic \<Rightarrow> real" where
  "q_loss th s a target_Q cr =
     (let (current_Q1, current_Q2) = Double_Q_Critic_forward (qnet th) cr s a
      in mse_loss (concat current_Q1) (concat target_Q) + mse_loss (concat current_Q2) (concat target_Q))"

definition a_loss ::
  "'o torch \<Rightarrow> 'o SAC \<Rightarrow> vec list \<Rightarrow> (nat \<Rightarrow> nat \<Rightarrow> real) \<Rightarrow> Actor \<Rightarrow> real" where
  "a_loss th ag s eps ac =
     (case Actor_forward ac s False True eps of
        (a, None) \<Rightarrow> 0
      | (a, Some log_pi_a) \<Rightarrow>
          (let (current_Q1, current_Q2) = Double_Q_Critic_forward (qnet th) (q_critic ag) s a;
               Q = map (\<lambda>(q1, q2). map (\<lambda>(x, y). min x y) (zip q1 q2)) (zip current_Q1 current_Q2)
           in mean (concat (map (\<lambda>(l, q). map (\<lambda>x. alpha ag * l - x) q) (zip log_pi_a Q)))))"

definition alpha_loss :: "real list \<Rightarrow> real \<Rightarrow> real \<Rightarrow> real" where
  "alpha_loss log_pi_a tgt_entropy la = - mean (map (\<lambda>l. la * (l + tgt_entropy)) log_pi_a)"

text \<open>
  \<^verbatim>\<open>
  for param, target_param in zip(self.q_critic.parameters(), self.q_critic_target.parameters()):
      target_param.data.copy_(self.tau * param.data + (1 - self.tau) * target_param.data)
  \<close>
  The copy is in place: a target parameter with no online partner in the \<^verbatim>\<open>zip\<close> keeps its
  value.
\<close>

definition polyak :: "real \<Rightarrow> real list \<Rightarrow> real list \<Rightarrow> real list" where
  "polyak t param target_param =
     map (\<lambda>(p, tp). t * p + (1 - t) * tp) (zip param target_param)
     @ drop (length param) target_param"

definition soft_update :: "real \<Rightarrow> Double_Q_Critic \<Rightarrow> Double_Q_Critic \<Rightarrow> Double_Q_Critic" where
  "soft_update t online target =
     \<lparr> Q_1 = polyak t (Q_1 online) (Q_1 target), Q_2 = polyak t (Q_2 online) (Q_2 target) \<rparr>"

subsection \<open>train\<close>

text \<open>
  The random draws of one call of \<^verbatim>\<open>train()\<close>: the indices of the batch, the noise of
  the reward model's \<^verbatim>\<open>forward\<close> and \<^verbatim>\<open>sample\<close>, and the noise of the two calls of the
  actor.
\<close>

record draws =
  d_ind :: "nat list"
  d_eps_r :: "nat \<Rightarrow> real"
  d_eps_sample :: "nat \<Rightarrow> nat \<Rightarrow> real"
  d_eps_next :: "nat \<Rightarrow> nat \<Rightarrow> real"
  d_eps_cur :: "nat \<Rightarrow> nat \<Rightarrow> real"

text \<open>The updates of the critic, the actor and the entropy coefficient, in the order of
  \<^verbatim>\<open>train()\<close>, and the soft update that ends it.\<close>

definition critic_update :: "'o torch \<Rightarrow> 'o SAC \<Rightarrow> vec list \<Rightarrow> vec list \<Rightarrow> vec list \<Rightarrow> 'o SAC" where
  "critic_update th ag s a target_Q =
     (let (cr, ost) = adam_critic th (q_critic_optimizer ag) (q_critic ag) (q_loss th s a target_Q)
      in ag \<lparr> q_critic := cr, q_critic_optimizer := ost \<rparr>)"

definition actor_update :: "'o torch \<Rightarrow> 'o SAC \<Rightarrow> vec list \<Rightarrow> (nat \<Rightarrow> nat \<Rightarrow> real) \<Rightarrow> 'o SAC" where
  "actor_update th ag s eps =
     (let (ac, ost) = adam_actor th (actor_optimizer ag) (actor ag) (a_loss th ag s eps)
      in ag \<lparr> actor := ac, actor_optimizer := ost \<rparr>)"

definition alpha_update :: "'o torch \<Rightarrow> 'o SAC \<Rightarrow> real list \<Rightarrow> 'o SAC" where
  "alpha_update th ag log_pi_a =
     (if adaptive_alpha ag then
        (let (la, ost) = adam_alpha th (alpha_optim ag) (log_alpha ag)
                           (alpha_loss log_pi_a (target_entropy ag))
         in ag \<lparr> log_alpha := la, alpha_optim := ost, alpha := exp la \<rparr>)
      else ag)"

definition target_update :: "'o SAC \<Rightarrow> 'o SAC" where
  "target_update ag =
     ag \<lparr> q_critic_target := soft_update (tau ag) (q_critic ag) (q_critic_target ag) \<rparr>"

definition train :: "'o torch \<Rightarrow> 'o SAC \<Rightarrow> draws \<Rightarrow> error + 'o SAC" where
  "train th ag dr =
     (case sample (replay_buffer ag) (batch_size ag) (d_ind dr) of
        Inl e \<Rightarrow> Inl e
      | Inr (s, a, r, s_next, dw) \<Rightarrow>
          (case (if robust ag then
                   (case robust_block th ag s a r (d_eps_r dr) (d_eps_sample dr) of
                      Inl e \<Rightarrow> Inl e
                    | Inr (ag1, r_opt) \<Rightarrow> Inr (ag1, Some r_opt))
                 else Inr (ag, None)) of
             Inl e \<Rightarrow> Inl e
           | Inr (ag1, r_opt) \<Rightarrow>
               (case Q_target th ag1 r r_opt s_next dw (d_eps_next dr) of
                  Inl e \<Rightarrow> Inl e
                | Inr target_Q \<Rightarrow>
                    (let ag2 = critic_update th ag1 s a target_Q
                     in case Actor_forward (actor ag2) s False True (d_eps_cur dr) of
                          (a_new, None) \<Rightarrow> Inl TypeError
                        | (a_new, Some log_pi_a) \<Rightarrow>
                            (let ag3 = actor_update th ag2 s (d_eps_cur dr);
                                 ag4 = alpha_update th ag3 log_pi_a
                             in Inr (target_update ag4))))))"

section \<open>Notions used in the statements\<close>

text \<open>
  The invariant of one array of the ring after the values \<open>hist\<close> were stored in turn,
  the cursor being \<open>length hist mod C\<close>: while the ring is filling, the array is the
  history followed by the initial rows; once full, reading the array from the cursor
  gives the last \<open>C\<close> values stored, oldest first.
\<close>

definition ring_inv :: "nat \<Rightarrow> 'a \<Rightarrow> 'a list \<Rightarrow> 'a list \<Rightarrow> bool" where
  "ring_inv C z hist xs =
     (length xs = C \<and>
      (if length hist < C then xs = hist @ replicate (C - length hist) z
       else rotate (length hist mod C) xs = drop (length hist - C) hist))"

text \<open>
  The insertion that slot \<open>i\<close> of the ring holds after \<open>n\<close> insertions, as an index into
  the sequence of insertions: \<open>i\<close> itself while the ring is filling, and afterwards the one
  of the last \<open>C\<close> insertions that was written to slot \<open>i\<close>.
\<close>

definition ring_src :: "nat \<Rightarrow> nat \<Rightarrow> nat \<Rightarrow> nat" where
  "ring_src C n i = (if n < C then i else n - C + (i + C - n mod C) mod C)"

text \<open>
  \<^verbatim>\<open>q_critic.parameters()\<close> lists the parameters of \<^verbatim>\<open>Q_1\<close>, then those of \<^verbatim>\<open>Q_2\<close>. The
  distance between two critics is the Euclidean norm of the difference of their
  parameters.
\<close>

definition parameters :: "Double_Q_Critic \<Rightarrow> real list" where
  "parameters cr = Q_1 cr @ Q_2 cr"

definition l2_norm :: "real list \<Rightarrow> real" where
  "l2_norm v = sqrt (sum_list (map (\<lambda>x. x\<^sup>2) v))"

definition param_dist :: "Double_Q_Critic \<Rightarrow> Double_Q_Critic \<Rightarrow> real" where
  "param_dist c1 c2 = l2_norm (map (\<lambda>(x, y). x - y) (zip (parameters c1) (parameters c2)))"

text \<open>
  The two formulas of the specification, in its words. The Bellman target of one element:
  \<^verbatim>\<open>y = r_used + (1 - done) * gamma * (min_target_Q - alpha * log_pi(a_next|s_next))\<close>.
  The dual objective of one batch element, on its row \<open>R\<close> of \<open>n\<close> sampled rewards:
  \<^verbatim>\<open>g(beta) = -beta * (logsumexp(-R/beta, axis=samples) - ln(n)) - beta * delta\<close>.
\<close>

definition y_spec :: "real \<Rightarrow> real \<Rightarrow> real \<Rightarrow> bool \<Rightarrow> real \<Rightarrow> real \<Rightarrow> real \<Rightarrow> real" where
  "y_spec gm al r_used done target_Q1 target_Q2 log_pi =
     r_used + (1 - (if done then 1 else 0)) * gm * (min target_Q1 target_Q2 - al * log_pi)"


section \<open>Concrete inputs\<close>

text \<open>
  A small agent on which the definitions evaluate: one state and one action dimension, a
  buffer of capacity 2 holding one terminal transition with reward 3, constant networks,
  a critic whose output is the sum of its parameters, optimizers that leave their
  argument as it is except the critic's (which adds 1 to the parameters of \<open>Q_1\<close>) and the
  dual variable's (which adds 1 to every entry), and draws with all noise 0 except the
  reward samples' (1).
\<close>

definition act0 :: Actor where
  "act0 = \<lparr> a_net = (\<lambda>x. x), mu_layer = (\<lambda>x. [0]), log_std_layer = (\<lambda>x. [0]) \<rparr>"

definition rw0 :: "string \<Rightarrow> Reward" where
  "rw0 ty = \<lparr> rtype = ty, rnet = (\<lambda>x. x), mu_layer_r = (\<lambda>x. 1), log_std_layer_r = (\<lambda>x. 0) \<rparr>"

definition th0 :: "unit torch" where
  "th0 = \<lparr> qnet = (\<lambda>p x. [sum_list p]),
           adam_actor = (\<lambda>ost v l. (v, ost)),
           adam_critic = (\<lambda>ost v l. (\<lparr> Q_1 = map (\<lambda>x. x + 1) (Q_1 v), Q_2 = Q_2 v \<rparr>, ost)),
           adam_reward = (\<lambda>ost v l. (v, ost)),
           adam_beta = (\<lambda>ost v l. (map (\<lambda>x. x + 1) v, ost)),
           adam_alpha = (\<lambda>ost v l. (v, ost)) \<rparr>"

definition buf0 :: ReplayBuffer where
  "buf0 = \<lparr> max_size = 2, ptr = 1, size_buf = 1, s_buf = [[1], [0]], a_buf = [[1/2], [0]],
            r_buf = [3, 0], s_next_buf = [[2], [0]], dw_buf = [True, False] \<rparr>"

definition ag0 :: "bool \<Rightarrow> string \<Rightarrow> unit SAC" where
  "ag0 rb ty = \<lparr> robust = rb, delta = 0, tau = 0.005, gamma = 0.99, alpha = 0.12,
      adaptive_alpha = False, batch_size = 1, actor = act0, actor_optimizer = (),
      q_critic = \<lparr> Q_1 = [1], Q_2 = [2] \<rparr>, q_critic_optimizer = (),
      q_critic_target = \<lparr> Q_1 = [5], Q_2 = [4] \<rparr>,
      reward = rw0 ty, reward_optimizer = (), beta = [0], beta_optimizer = (),
      replay_buffer = buf0, target_entropy = - 1, log_alpha = 0, alpha_optim = () \<rparr>"

definition kw0 :: "real \<Rightarrow> real \<Rightarrow> unit kwargs" where
  "kw0 tr ev = \<lparr> kw_robust = True, kw_train_std = tr, kw_eval_std = ev, kw_gamma = 0.99,
      kw_alpha = 0.12, kw_adaptive_alpha = True, kw_batch_size = 1, kw_state_dim = 1,
      kw_action_dim = 1,
      new_actor = act0,
      new_critic = \<lparr> Q_1 = [1], Q_2 = [2] \<rparr>,
      new_reward = rw0 ''continuous'',
      new_adam = () \<rparr>"

definition dr0 :: draws where
  "dr0 = \<lparr> d_ind = [0], d_eps_r = (\<lambda>i. 0), d_eps_sample = (\<lambda>k i. 1),
            d_eps_next = (\<lambda>i j. 0), d_eps_cur = (\<lambda>i j. 0) \<rparr>"

section \<open>ReplayBuffer: the ring invariant\<close>

lemma add_all_append:
  "add_all b (ts @ us) = (case add_all b ts of Inl e \<Rightarrow> Inl e | Inr b' \<Rightarrow> add_all b' us)"
  by (induction ts arbitrary: b) (auto split: sum.splits)

text \<open>One store into a full ring: the slot under the cursor held the oldest entry.\<close>

lemma ring_store:
  assumes p: "p < length xs" and r: "rotate p xs = ys"
  shows "rotate ((p + 1) mod length xs) (xs[p := x]) = tl ys @ [x]"
proof -
  have ys: "ys = drop p xs @ take p xs"
    using p r by (simp add: rotate_drop_take)
  have dne: "drop p xs \<noteq> []" using p by simp
  have tl_ys: "tl ys = drop (Suc p) xs @ take p xs"
    using dne by (simp add: ys drop_Suc tl_drop)
  show ?thesis
  proof (cases "Suc p < length xs")
    case True
    then have "rotate ((p + 1) mod length xs) (xs[p := x])
        = drop (Suc p) (xs[p := x]) @ take (Suc p) (xs[p := x])"
      by (simp add: rotate_drop_take)
    also have "\<dots> = drop (Suc p) xs @ take p xs @ [x]"
      using p by (simp add: take_Suc_conv_app_nth)
    finally show ?thesis by (simp add: tl_ys)
  next
    case False
    with p have len: "length xs = Suc p" by simp
    have "xs[p := x] = take (Suc p) (xs[p := x])"
      using len by simp
    also have "\<dots> = take p xs @ [x]"
      using p by (simp add: take_Suc_conv_app_nth)
    finally have "xs[p := x] = take p xs @ [x]" .
    then show ?thesis using len by (simp add: tl_ys)
  qed
qed

lemma ring_inv_init: "ring_inv C z [] (replicate C z)"
  by (simp add: ring_inv_def)

lemma ring_inv_step:
  assumes C: "0 < C" and inv: "ring_inv C z hist xs"
  shows "ring_inv C z (hist @ [x]) (xs[length hist mod C := x])"
proof -
  let ?n = "length hist"
  have len: "length xs = C" using inv by (simp add: ring_inv_def)
  consider (fill) "Suc ?n < C" | (last) "Suc ?n = C" | (full) "C \<le> ?n" by linarith
  then show ?thesis
  proof cases
    case fill
    then have xs: "xs = hist @ replicate (C - ?n) z"
      using inv by (simp add: ring_inv_def)
    have rep: "replicate (C - ?n) z = z # replicate (C - Suc ?n) z"
    proof -
      have "C - ?n = Suc (C - Suc ?n)" using fill by linarith
      then show ?thesis by simp
    qed
    have "xs[?n := x] = hist @ x # replicate (C - Suc ?n) z"
      by (subst xs) (simp add: rep list_update_append)
    then show ?thesis using fill len by (simp add: ring_inv_def)
  next
    case last
    then have xs: "xs = hist @ replicate (C - ?n) z"
      using inv by (simp add: ring_inv_def)
    have rep: "replicate (C - ?n) z = [z]"
    proof -
      have "C - ?n = Suc 0" using last by linarith
      then show ?thesis by simp
    qed
    have "xs[?n := x] = hist @ [x]"
      by (subst xs) (simp add: rep list_update_append)
    then show ?thesis using last len by (simp add: ring_inv_def)
  next
    case full
    then have rot: "rotate (?n mod C) xs = drop (?n - C) hist"
      using inv by (simp add: ring_inv_def)
    have p: "?n mod C < length xs" using C len by simp
    have "rotate ((?n mod C + 1) mod length xs) (xs[?n mod C := x])
        = tl (drop (?n - C) hist) @ [x]"
      by (rule ring_store [OF p rot])
    moreover have "(?n mod C + 1) mod length xs = Suc ?n mod C"
      using len by (simp add: mod_Suc_eq)
    moreover have "tl (drop (?n - C) hist) @ [x] = drop (Suc ?n - C) (hist @ [x])"
    proof -
      have "Suc ?n - C = Suc (?n - C)" using full by linarith
      moreover have "Suc (?n - C) \<le> length hist" using full C by linarith
      ultimately show ?thesis by (simp add: tl_drop drop_Suc)
    qed
    ultimately show ?thesis using full len by (simp add: ring_inv_def)
  qed
qed

text \<open>The buffer after the transitions \<open>ts\<close> were added to a fresh buffer of capacity \<open>C\<close>.\<close>

lemma add_all_init_inv:
  assumes C: "0 < C"
  shows "\<exists>b. add_all (ReplayBuffer_init sd ad C) ts = Inr b
           \<and> max_size b = C
           \<and> ptr b = length ts mod C
           \<and> size_buf b = min (length ts) C
           \<and> ring_inv C (replicate sd 0) (map t_s ts) (s_buf b)
           \<and> ring_inv C (replicate ad 0) (map t_a ts) (a_buf b)
           \<and> ring_inv C 0 (map t_r ts) (r_buf b)
           \<and> ring_inv C (replicate sd 0) (map t_s_next ts) (s_next_buf b)
           \<and> ring_inv C False (map t_dw ts) (dw_buf b)"
proof (induction ts rule: rev_induct)
  case Nil
  show ?case by (simp add: ReplayBuffer_init_def ring_inv_init)
next
  case (snoc t ts)
  then obtain b where run: "add_all (ReplayBuffer_init sd ad C) ts = Inr b"
    and ms: "max_size b = C" and pt: "ptr b = length ts mod C"
    and sz: "size_buf b = min (length ts) C"
    and i1: "ring_inv C (replicate sd 0) (map t_s ts) (s_buf b)"
    and i2: "ring_inv C (replicate ad 0) (map t_a ts) (a_buf b)"
    and i3: "ring_inv C 0 (map t_r ts) (r_buf b)"
    and i4: "ring_inv C (replicate sd 0) (map t_s_next ts) (s_next_buf b)"
    and i5: "ring_inv C False (map t_dw ts) (dw_buf b)"
    by blast
  have len: "length (s_buf b) = C" using i1 by (simp add: ring_inv_def)
  have inb: "ptr b < length (s_buf b)" using C pt len by simp
  define b' where "b' = b \<lparr> s_buf := (s_buf b)[ptr b := t_s t],
                 a_buf := (a_buf b)[ptr b := t_a t],
                 r_buf := (r_buf b)[ptr b := t_r t],
                 s_next_buf := (s_next_buf b)[ptr b := t_s_next t],
                 dw_buf := (dw_buf b)[ptr b := t_dw t],
                 ptr := (ptr b + 1) mod max_size b,
                 size_buf := min (size_buf b + 1) (max_size b) \<rparr>"
  have step: "add b t = Inr b'" using inb by (simp add: add_def b'_def)
  have run': "add_all (ReplayBuffer_init sd ad C) (ts @ [t]) = Inr b'"
    by (simp add: add_all_append run step)
  have j1: "ring_inv C (replicate sd 0) (map t_s (ts @ [t])) (s_buf b')"
    using ring_inv_step [OF C i1, of "t_s t"] by (simp add: b'_def pt)
  have j2: "ring_inv C (replicate ad 0) (map t_a (ts @ [t])) (a_buf b')"
    using ring_inv_step [OF C i2, of "t_a t"] by (simp add: b'_def pt)
  have j3: "ring_inv C 0 (map t_r (ts @ [t])) (r_buf b')"
    using ring_inv_step [OF C i3, of "t_r t"] by (simp add: b'_def pt)
  have j4: "ring_inv C (replicate sd 0) (map t_s_next (ts @ [t])) (s_next_buf b')"
    using ring_inv_step [OF C i4, of "t_s_next t"] by (simp add: b'_def pt)
  have j5: "ring_inv C False (map t_dw (ts @ [t])) (dw_buf b')"
    using ring_inv_step [OF C i5, of "t_dw t"] by (simp add: b'_def pt)
  have p': "ptr b' = length (ts @ [t]) mod C"
    by (simp add: b'_def pt ms mod_Suc_eq)
  have s': "size_buf b' = min (length (ts @ [t])) C"
    by (simp add: b'_def sz ms)
  have m': "max_size b' = C" by (simp add: b'_def ms)
  show ?case using run' m' p' s' j1 j2 j3 j4 j5 by blast
qed

lemma ring_inv_full:
  assumes "ring_inv C z (map f ts) xs" and "C \<le> length ts"
  shows "rotate (length ts mod C) xs = map f (drop (length ts - C) ts)"
proof -
  have "\<not> length (map f ts) < C" using assms(2) by simp
  then have "rotate (length (map f ts) mod C) xs = drop (length (map f ts) - C) (map f ts)"
    using assms(1) unfolding ring_inv_def by presburger
  then show ?thesis by (simp add: drop_map)
qed

section \<open>Claims about the replay buffer\<close>

text \<open>
  C5. On a buffer of capacity \<open>C \<ge> 1\<close>, every sequence \<open>ts\<close> of \<^verbatim>\<open>add\<close> calls succeeds, and
  after it (so after each call, \<open>ts\<close> being any prefix of a longer run): \<open>size \<le> C\<close>, \<open>size\<close>
  is the number of calls capped at \<open>C\<close>, and the cursor is the number of calls modulo \<open>C\<close>.
  Once \<open>C\<close> or more transitions were added, \<open>size = C\<close>, and each of the five arrays, read
  from the cursor round the ring, is that field of the last \<open>C\<close> transitions in the order
  of insertion: the slot under the cursor, the next to be overwritten, holds the oldest.
\<close>

theorem ReplayBuffer_add_wraparound:
  assumes "0 < C"
  shows "\<exists>b. add_all (ReplayBuffer_init sd ad C) ts = Inr b
           \<and> size_buf b \<le> C
           \<and> size_buf b = min (length ts) C
           \<and> ptr b = length ts mod C
           \<and> (C \<le> length ts \<longrightarrow>
                size_buf b = C
                \<and> rotate (ptr b) (s_buf b) = map t_s (drop (length ts - C) ts)
                \<and> rotate (ptr b) (a_buf b) = map t_a (drop (length ts - C) ts)
                \<and> rotate (ptr b) (r_buf b) = map t_r (drop (length ts - C) ts)
                \<and> rotate (ptr b) (s_next_buf b) = map t_s_next (drop (length ts - C) ts)
                \<and> rotate (ptr b) (dw_buf b) = map t_dw (drop (length ts - C) ts))"
proof -
  obtain b where run: "add_all (ReplayBuffer_init sd ad C) ts = Inr b"
    and pt: "ptr b = length ts mod C"
    and sz: "size_buf b = min (length ts) C"
    and i1: "ring_inv C (replicate sd 0) (map t_s ts) (s_buf b)"
    and i2: "ring_inv C (replicate ad 0) (map t_a ts) (a_buf b)"
    and i3: "ring_inv C 0 (map t_r ts) (r_buf b)"
    and i4: "ring_inv C (replicate sd 0) (map t_s_next ts) (s_next_buf b)"
    and i5: "ring_inv C False (map t_dw ts) (dw_buf b)"
    using add_all_init_inv [OF assms, of sd ad ts] by blast
  have full: "C \<le> length ts \<longrightarrow>
                size_buf b = C
                \<and> rotate (ptr b) (s_buf b) = map t_s (drop (length ts - C) ts)
                \<and> rotate (ptr b) (a_buf b) = map t_a (drop (length ts - C) ts)
                \<and> rotate (ptr b) (r_buf b) = map t_r (drop (length ts - C) ts)
                \<and> rotate (ptr b) (s_next_buf b) = map t_s_next (drop (length ts - C) ts)
                \<and> rotate (ptr b) (dw_buf b) = map t_dw (drop (length ts - C) ts)"
  proof
    assume le: "C \<le> length ts"
    show "size_buf b = C
                \<and> rotate (ptr b) (s_buf b) = map t_s (drop (length ts - C) ts)
                \<and> rotate (ptr b) (a_buf b) = map t_a (drop (length ts - C) ts)
                \<and> rotate (ptr b) (r_buf b) = map t_r (drop (length ts - C) ts)
                \<and> rotate (ptr b) (s_next_buf b) = map t_s_next (drop (length ts - C) ts)
                \<and> rotate (ptr b) (dw_buf b) = map t_dw (drop (length ts - C) ts)"
      using le sz ring_inv_full [OF i1 le] ring_inv_full [OF i2 le] ring_inv_full [OF i3 le]
        ring_inv_full [OF i4 le] ring_inv_full [OF i5 le]
      by (simp add: pt)
  qed
  have "size_buf b \<le> C" using sz by simp
  with run sz pt full show ?thesis by blast
qed

theorem ReplayBuffer_add_wraparound_witness:
  "\<exists>b. add_all (ReplayBuffer_init 1 1 2)
          [\<lparr>t_s = [1], t_a = [0], t_r = 10, t_s_next = [2], t_dw = False\<rparr>,
           \<lparr>t_s = [2], t_a = [0], t_r = 20, t_s_next = [3], t_dw = False\<rparr>,
           \<lparr>t_s = [3], t_a = [1], t_r = 30, t_s_next = [4], t_dw = True\<rparr>] = Inr b
       \<and> size_buf b = 2 \<and> ptr b = 1
       \<and> rotate 1 (r_buf b) = [20, 30] \<and> rotate 1 (dw_buf b) = [False, True]
       \<and> rotate 1 (s_buf b) = [[2], [3]]"
  using ReplayBuffer_add_wraparound [of 2 1 1
          "[\<lparr>t_s = [1], t_a = [0], t_r = 10, t_s_next = [2], t_dw = False\<rparr>,
           \<lparr>t_s = [2], t_a = [0], t_r = 20, t_s_next = [3], t_dw = False\<rparr>,
           \<lparr>t_s = [3], t_a = [1], t_r = 30, t_s_next = [4], t_dw = True\<rparr>]"]
  by auto

section \<open>Claims about the action scaling\<close>



section \<open>Claims about the uncertainty radius\<close>









section \<open>Claims about the reward model\<close>

text \<open>
  C10. With a reward type other than \<open>''continuous''\<close>, \<^verbatim>\<open>Reward.forward\<close> fails at the
  subscript of the linear layer (TypeError) and \<^verbatim>\<open>Reward.sample\<close> fails at the return of
  the unassigned variable (UnboundLocalError): neither returns a reward, and the robust
  block of \<^verbatim>\<open>train()\<close>, which starts with \<^verbatim>\<open>forward\<close>, fails with it.
\<close>

theorem Reward_discrete_fails:
  assumes "rtype rw \<noteq> ''continuous''"
  shows "Reward_forward rw s a eps = Inl TypeError
       \<and> Reward_sample rw s a num eps' = Inl UnboundLocalError
       \<and> robust_block th (ag \<lparr> reward := rw \<rparr>) s a r eps eps' = Inl TypeError"
  using assms by (simp add: Reward_forward_def Reward_sample_def robust_block_def Let_def)

theorem Reward_discrete_fails_witness:
  "rtype (rw0 ''discrete'') \<noteq> ''continuous''
   \<and> Reward_forward (rw0 ''discrete'') [[1]] [[0]] (\<lambda>i. 0) = Inl TypeError
   \<and> Reward_sample (rw0 ''discrete'') [[1]] [[0]] 50 (\<lambda>k i. 0) = Inl UnboundLocalError
   \<and> robust_block th0 (ag0 True ''discrete'') [[1]] [[0]] [3] (\<lambda>i. 0) (\<lambda>k i. 0) = Inl TypeError"
  using Reward_discrete_fails [of "rw0 ''discrete''" "[[1]]" "[[0]]" "\<lambda>i. 0" 50 "\<lambda>k i. 0"
          th0 "ag0 True ''discrete''" "[3]"]
  by (simp add: rw0_def ag0_def)

section \<open>Claims about the actor\<close>

lemma map_zip_upt_snd: "map (\<lambda>(i, x). f x) (zip [0..<length xs] xs) = map f xs"
  by (rule nth_equalityI) simp_all

lemma map_zip_upt_nth: "map (\<lambda>(i, x). f i x) (zip [0..<length xs] xs) = map (\<lambda>i. f i (xs ! i)) [0..<length xs]"
  by (rule nth_equalityI) simp_all

lemma Actor_forward_deterministic:
  "fst (Actor_forward net state True with_logprob eps)
     = map (\<lambda>st. map tanh (mu_layer net (a_net net st))) state"
  by (simp add: Actor_forward_def Actor_u_def Actor_dist_def Let_def map_zip_upt_snd)

text \<open>
  C9. With \<open>deterministic = True\<close> the pre-squash sample is the mean computed by the
  network, whatever the noise; the action of every row is \<open>tanh\<close> of that mean; and
  \<^verbatim>\<open>select_action\<close> returns that action, the same for any two calls on the same state
  and the same parameters.
\<close>

theorem deterministic_action:
  "Actor_u net st True e = mu_layer net (a_net net st)
   \<and> Actor_u net st True e = Actor_u net st True e'
   \<and> fst (Actor_forward net state True with_logprob eps)
       = map (\<lambda>st. map tanh (mu_layer net (a_net net st))) state
   \<and> select_action ag st True eps = Inr (map tanh (mu_layer (actor ag) (a_net (actor ag) st)))
   \<and> select_action ag st True eps = select_action ag st True eps'"
proof -
  have u: "\<And>e. Actor_u net st True e = mu_layer net (a_net net st)"
    by (simp add: Actor_u_def Actor_dist_def Let_def)
  have sel: "\<And>eps. select_action ag st True eps
               = Inr (map tanh (mu_layer (actor ag) (a_net (actor ag) st)))"
  proof -
    fix eps
    have "fst (Actor_forward (actor ag) [st] True False eps)
            = [map tanh (mu_layer (actor ag) (a_net (actor ag) st))]"
      by (simp add: Actor_forward_deterministic)
    then show "select_action ag st True eps
               = Inr (map tanh (mu_layer (actor ag) (a_net (actor ag) st)))"
      by (simp add: select_action_def Let_def case_prod_unfold)
  qed
  show ?thesis using u sel Actor_forward_deterministic by simp
qed

lemma softplus_tanh: "2 * (ln 2 - x - softplus (- 2 * x)) = ln (1 - (tanh x)\<^sup>2)"
proof -
  define e where "e = exp (- 2 * x)"
  have e: "0 < e" by (simp add: e_def)
  have t: "tanh x = (1 - e) / (1 + e)"
    unfolding e_def by (rule tanh_real_altdef)
  have ne: "1 + e \<noteq> 0" using e by simp
  have "(tanh x)\<^sup>2 = (1 - e)\<^sup>2 / (1 + e)\<^sup>2"
    by (simp only: t power_divide)
  then have "1 - (tanh x)\<^sup>2 = ((1 + e)\<^sup>2 - (1 - e)\<^sup>2) / (1 + e)\<^sup>2"
    using ne by (simp add: diff_divide_distrib)
  also have "(1 + e)\<^sup>2 - (1 - e)\<^sup>2 = 4 * e"
    by (simp add: power2_eq_square algebra_simps)
  finally have sq: "1 - (tanh x)\<^sup>2 = 4 * e / (1 + e)\<^sup>2" .
  have "ln (4 * e / (1 + e)\<^sup>2) = ln (4 * e) - ln ((1 + e)\<^sup>2)"
    using e by (simp add: ln_div)
  also have "ln (4 * e) = ln 4 + ln e"
    using e by (simp add: ln_mult)
  also have "ln ((1 + e)\<^sup>2) = 2 * ln (1 + e)"
    using e by (simp add: ln_realpow)
  also have "ln e = - 2 * x" by (simp add: e_def)
  also have "ln (4::real) = 2 * ln 2"
  proof -
    have "ln (4::real) = ln (2\<^sup>2)" by simp
    also have "\<dots> = 2 * ln 2" by (simp only: ln_realpow)
    finally show ?thesis .
  qed
  finally have "ln (1 - (tanh x)\<^sup>2) = 2 * ln 2 + - 2 * x - 2 * ln (1 + e)"
    by (simp add: sq)
  then show ?thesis by (simp add: softplus_def e_def algebra_simps)
qed

lemma Actor_logp_sum:
  assumes "length mu = length u" and "length std = length u"
  shows "Actor_logp mu std u
     = (\<Sum>j<length u. Normal_log_prob (mu ! j) (std ! j) (u ! j) - ln (1 - (tanh (u ! j))\<^sup>2))"
proof -
  have a: "sum_list (map (\<lambda>(m, sd, x). Normal_log_prob m sd x) (zip mu (zip std u)))
         = (\<Sum>j<length u. Normal_log_prob (mu ! j) (std ! j) (u ! j))"
    using assms by (simp add: sum_list_sum_nth atLeast0LessThan)
  have b: "sum_list (map (\<lambda>x. 2 * (ln 2 - x - softplus (- 2 * x))) u)
         = (\<Sum>j<length u. ln (1 - (tanh (u ! j))\<^sup>2))"
  proof -
    have "(\<lambda>x. 2 * (ln 2 - x - softplus (- 2 * x))) = (\<lambda>x. ln (1 - (tanh x)\<^sup>2))"
      by (rule ext) (rule softplus_tanh)
    then have "sum_list (map (\<lambda>x. 2 * (ln 2 - x - softplus (- 2 * x))) u)
             = sum_list (map (\<lambda>x. ln (1 - (tanh x)\<^sup>2)) u)"
      by (simp only:)
    also have "\<dots> = (\<Sum>j<length u. ln (1 - (tanh (u ! j))\<^sup>2))"
      by (simp add: sum_list_sum_nth atLeast0LessThan)
    finally show ?thesis .
  qed
  show ?thesis
    unfolding Actor_logp_def a b by (simp add: sum_subtractf)
qed

lemma Actor_shapes:
  assumes "\<forall>y. length (log_std_layer net y) = length (mu_layer net y)"
  shows "length (fst (Actor_dist net st)) = length (Actor_u net st det e)"
    and "length (snd (Actor_dist net st)) = length (Actor_u net st det e)"
  using assms by (simp_all add: Actor_dist_def Actor_u_def Normal_rsample_def Let_def)

text \<open>
  C3. The softplus expression of the code is the change-of-variables correction of the
  squashed action: \<open>2 * (ln 2 - u - softplus (- 2 * u)) = ln (1 - (tanh u)\<^sup>2)\<close> for every \<open>u\<close>.
  The action returned is \<open>tanh\<close> of the pre-squash sample. With \<open>with_logprob = False\<close> no
  log-probability is returned. With \<open>with_logprob = True\<close>, and the two heads of the
  network giving rows of one length, the log-probability of row \<open>i\<close> is the sum over the
  dimensions \<open>j\<close> of the Gaussian log-density of the pre-squash sample \<open>u\<^sub>j\<close> minus
  \<open>2 * (ln 2 - u\<^sub>j - softplus (- 2 * u\<^sub>j))\<close>.
\<close>

theorem Actor_log_prob:
  "(\<forall>u. 2 * (ln 2 - u - softplus (- 2 * u)) = ln (1 - (tanh u)\<^sup>2))
   \<and> fst (Actor_forward net state det with_logprob eps)
       = map (\<lambda>i. map tanh (Actor_u net (state ! i) det (eps i))) [0..<length state]
   \<and> snd (Actor_forward net state det False eps) = None
   \<and> ((\<forall>y. length (log_std_layer net y) = length (mu_layer net y)) \<longrightarrow>
        snd (Actor_forward net state det True eps)
          = Some (map (\<lambda>i. let mu = fst (Actor_dist net (state ! i));
                               std = snd (Actor_dist net (state ! i));
                               u = Actor_u net (state ! i) det (eps i)
                           in \<Sum>j<length u. (Normal_log_prob (mu ! j) (std ! j) (u ! j)
                                  - 2 * (ln 2 - u ! j - softplus (- 2 * (u ! j)))))
                      [0..<length state]))"
proof -
  have id: "\<forall>u. 2 * (ln 2 - u - softplus (- 2 * u)) = ln (1 - (tanh u)\<^sup>2)"
    using softplus_tanh by blast
  have act: "fst (Actor_forward net state det with_logprob eps)
       = map (\<lambda>i. map tanh (Actor_u net (state ! i) det (eps i))) [0..<length state]"
    by (simp add: Actor_forward_def Let_def map_zip_upt_nth)
  have none: "snd (Actor_forward net state det False eps) = None"
    by (simp add: Actor_forward_def Let_def)
  have some: "(\<forall>y. length (log_std_layer net y) = length (mu_layer net y)) \<longrightarrow>
        snd (Actor_forward net state det True eps)
          = Some (map (\<lambda>i. let mu = fst (Actor_dist net (state ! i));
                               std = snd (Actor_dist net (state ! i));
                               u = Actor_u net (state ! i) det (eps i)
                           in \<Sum>j<length u. (Normal_log_prob (mu ! j) (std ! j) (u ! j)
                                  - 2 * (ln 2 - u ! j - softplus (- 2 * (u ! j)))))
                      [0..<length state])"
  proof
    assume sh: "\<forall>y. length (log_std_layer net y) = length (mu_layer net y)"
    have row: "\<And>st e. Actor_logp (fst (Actor_dist net st)) (snd (Actor_dist net st))
                      (Actor_u net st det e)
        = (let mu = fst (Actor_dist net st); std = snd (Actor_dist net st);
               u = Actor_u net st det e
           in \<Sum>j<length u. (Normal_log_prob (mu ! j) (std ! j) (u ! j)
                                  - 2 * (ln 2 - u ! j - softplus (- 2 * (u ! j)))))"
      using Actor_logp_sum [OF Actor_shapes [OF sh]]
      by (simp only: Let_def softplus_tanh)
    show "snd (Actor_forward net state det True eps)
          = Some (map (\<lambda>i. let mu = fst (Actor_dist net (state ! i));
                               std = snd (Actor_dist net (state ! i));
                               u = Actor_u net (state ! i) det (eps i)
                           in \<Sum>j<length u. (Normal_log_prob (mu ! j) (std ! j) (u ! j)
                                  - 2 * (ln 2 - u ! j - softplus (- 2 * (u ! j)))))
                      [0..<length state])"
      by (simp add: Actor_forward_def map_zip_upt_nth row del: mult_minus_left)
  qed
  show ?thesis using id act none some by blast
qed

theorem Actor_log_prob_witness:
  "(\<forall>y. length (log_std_layer act0 y) = length (mu_layer act0 y))
   \<and> Actor_forward act0 [[1]] False True (\<lambda>i j. 1 / 2)
       = ([[tanh (1 / 2)]],
          Some [Normal_log_prob 0 1 (1 / 2) - 2 * (ln 2 - 1 / 2 - softplus (- 2 * (1 / 2)))])
   \<and> snd (Actor_forward act0 [[1]] False False (\<lambda>i j. 1 / 2)) = None"
  using Actor_log_prob [of act0 "[[1]]" False True "\<lambda>i j. 1 / 2"]
        Actor_log_prob [of act0 "[[1]]" False False "\<lambda>i j. 1 / 2"]
  by (simp add: act0_def Actor_dist_def Actor_u_def Normal_rsample_def clamp_def
        LOG_STD_MIN_def LOG_STD_MAX_def prod_eq_iff)

section \<open>Claims about sampling\<close>

lemma ring_src_bounds:
  assumes "0 < C" and "i < min n C"
  shows "ring_src C n i < n" and "n - C \<le> ring_src C n i"
proof -
  have m: "(i + C - n mod C) mod C < C" using assms(1) by simp
  show "ring_src C n i < n"
  proof (cases "n < C")
    case True
    then show ?thesis using assms(2) by (simp add: ring_src_def)
  next
    case False
    then have "ring_src C n i = n - C + (i + C - n mod C) mod C"
      by (simp add: ring_src_def)
    moreover have "n - C + (i + C - n mod C) mod C < n" using False m by linarith
    ultimately show ?thesis by simp
  qed
  show "n - C \<le> ring_src C n i"
  proof (cases "n < C")
    case True
    then show ?thesis by simp
  next
    case False
    then have "ring_src C n i = n - C + (i + C - n mod C) mod C"
      by (simp add: ring_src_def)
    then show ?thesis by linarith
  qed
qed

lemma ring_inv_slot:
  assumes C: "0 < C" and inv: "ring_inv C z (map f ts) xs" and i: "i < min (length ts) C"
  shows "xs ! i = f (ts ! ring_src C (length ts) i)"
proof (cases "length ts < C")
  case True
  then have "xs = map f ts @ replicate (C - length ts) z"
    using inv by (simp add: ring_inv_def)
  then show ?thesis using True i by (simp add: ring_src_def nth_append)
next
  case False
  let ?n = "length ts"
  let ?p = "?n mod C"
  let ?k = "(i + C - ?p) mod C"
  have len: "length xs = C" using inv by (simp add: ring_inv_def)
  have rot: "rotate ?p xs = map f (drop (?n - C) ts)"
    using ring_inv_full [OF inv] False by simp
  have p: "?p < C" using C by simp
  have k: "?k < C" using C by simp
  have iC: "i < C" using i by simp
  have "(?p + ?k) mod C = (?p + (i + C - ?p)) mod C"
    by (simp add: mod_add_right_eq)
  also have "?p + (i + C - ?p) = i + C" using p by simp
  also have "(i + C) mod C = i" using iC by simp
  finally have wrap: "(?p + ?k) mod C = i" .
  have "rotate ?p xs ! ?k = xs ! ((?p + ?k) mod length xs)"
    using k len by (simp add: nth_rotate)
  then have "xs ! i = rotate ?p xs ! ?k" by (simp add: len wrap)
  also have "\<dots> = f (drop (?n - C) ts ! ?k)"
    using k False by (simp add: rot)
  also have "drop (?n - C) ts ! ?k = ts ! (?n - C + ?k)"
    using k False by simp
  finally show ?thesis using False by (simp add: ring_src_def)
qed

lemma index_rows_ok:
  assumes "list_all (\<lambda>i. i < n) ind" and "n \<le> length xs"
  shows "index_rows xs ind = Inr (map (\<lambda>i. xs ! i) ind)"
proof -
  have "list_all (\<lambda>i. i < length xs) ind"
    using assms by (auto simp add: list_all_iff)
  then show ?thesis by (simp add: index_rows_def)
qed

lemma sample_empty: "size_buf b = 0 \<Longrightarrow> sample b n draw = Inl RandintEmptyRange"
  by (simp add: sample_def randint_def)

lemma sample_ok:
  assumes out: "randint_outcome 0 (size_buf b) n draw" and pos: "0 < size_buf b"
    and l1: "size_buf b \<le> length (s_buf b)" and l2: "size_buf b \<le> length (a_buf b)"
    and l3: "size_buf b \<le> length (r_buf b)" and l4: "size_buf b \<le> length (s_next_buf b)"
    and l5: "size_buf b \<le> length (dw_buf b)"
  shows "sample b n draw = Inr (map (\<lambda>i. s_buf b ! i) draw, map (\<lambda>i. a_buf b ! i) draw,
           map (\<lambda>i. r_buf b ! i) draw, map (\<lambda>i. s_next_buf b ! i) draw,
           map (\<lambda>i. dw_buf b ! i) draw)"
proof -
  have tk: "take n draw = draw" using out by (simp add: randint_outcome_def)
  have all: "list_all (\<lambda>i. i < size_buf b) draw"
    using out by (simp add: randint_outcome_def)
  have r: "randint 0 (size_buf b) n draw = Inr draw"
    using pos tk by (simp add: randint_def)
  show ?thesis
    by (simp add: sample_def r index_rows_ok [OF all l1] index_rows_ok [OF all l2]
        index_rows_ok [OF all l3] index_rows_ok [OF all l4] index_rows_ok [OF all l5])
qed

lemma add_all_init_lengths:
  assumes "add_all (ReplayBuffer_init sd ad C) ts = Inr b"
  shows "ts = [] \<or> 0 < C"
proof (cases ts)
  case Nil
  then show ?thesis by simp
next
  case (Cons t us)
  have "C = 0 \<Longrightarrow> add (ReplayBuffer_init sd ad C) t = Inl IndexError"
    by (simp add: add_def ReplayBuffer_init_def)
  then show ?thesis using assms Cons by (cases "C = 0") auto
qed

text \<open>
  C7. Let \<open>b\<close> be the buffer after the transitions \<open>ts\<close> were added to a fresh buffer. If
  \<open>size = 0\<close>, \<^verbatim>\<open>sample\<close> fails (the range of \<^verbatim>\<open>torch.randint\<close> is empty). If
  \<open>size \<ge> 1\<close>, then for every outcome \<open>draw\<close> of the random indices (\<open>batch_size\<close> indices of
  \<open>[0, size)\<close>, repeats allowed) \<^verbatim>\<open>sample\<close> returns the five arrays indexed by \<open>draw\<close>: five
  sequences of length \<open>batch_size\<close> whose entries at each position \<open>k\<close> are the five
  fields of one and the same transition, one of the last \<open>C\<close> added.
\<close>

theorem ReplayBuffer_sample_parallel:
  assumes "add_all (ReplayBuffer_init sd ad C) ts = Inr b"
  shows "(size_buf b = 0 \<longrightarrow> sample b n draw = Inl RandintEmptyRange)
       \<and> (1 \<le> size_buf b \<and> randint_outcome 0 (size_buf b) n draw \<longrightarrow>
            sample b n draw
              = Inr (map (\<lambda>i. s_buf b ! i) draw, map (\<lambda>i. a_buf b ! i) draw,
                     map (\<lambda>i. r_buf b ! i) draw, map (\<lambda>i. s_next_buf b ! i) draw,
                     map (\<lambda>i. dw_buf b ! i) draw)
            \<and> length draw = n
            \<and> (\<forall>k<n. \<exists>j<length ts. length ts - C \<le> j
                   \<and> draw ! k < size_buf b
                   \<and> s_buf b ! (draw ! k) = t_s (ts ! j)
                   \<and> a_buf b ! (draw ! k) = t_a (ts ! j)
                   \<and> r_buf b ! (draw ! k) = t_r (ts ! j)
                   \<and> s_next_buf b ! (draw ! k) = t_s_next (ts ! j)
                   \<and> dw_buf b ! (draw ! k) = t_dw (ts ! j)))"
proof (intro conjI impI)
  assume "size_buf b = 0"
  then show "sample b n draw = Inl RandintEmptyRange" by (rule sample_empty)
next
  assume h: "1 \<le> size_buf b \<and> randint_outcome 0 (size_buf b) n draw"
  then have pos: "0 < size_buf b" and out: "randint_outcome 0 (size_buf b) n draw"
    by simp_all
  have C: "0 < C"
  proof (rule ccontr)
    assume "\<not> 0 < C"
    then have "ts = []" using add_all_init_lengths [OF assms] by simp
    then have "b = ReplayBuffer_init sd ad C" using assms by simp
    then show False using pos by (simp add: ReplayBuffer_init_def)
  qed
  obtain b' where run: "add_all (ReplayBuffer_init sd ad C) ts = Inr b'"
    and sz: "size_buf b' = min (length ts) C"
    and i1: "ring_inv C (replicate sd 0) (map t_s ts) (s_buf b')"
    and i2: "ring_inv C (replicate ad 0) (map t_a ts) (a_buf b')"
    and i3: "ring_inv C 0 (map t_r ts) (r_buf b')"
    and i4: "ring_inv C (replicate sd 0) (map t_s_next ts) (s_next_buf b')"
    and i5: "ring_inv C False (map t_dw ts) (dw_buf b')"
    using add_all_init_inv [OF C, of sd ad ts] by blast
  have bb: "b' = b" using run assms by simp
  note sz = sz [unfolded bb] and i1 = i1 [unfolded bb] and i2 = i2 [unfolded bb]
    and i3 = i3 [unfolded bb] and i4 = i4 [unfolded bb] and i5 = i5 [unfolded bb]
  have l: "size_buf b \<le> length (s_buf b)" "size_buf b \<le> length (a_buf b)"
    "size_buf b \<le> length (r_buf b)" "size_buf b \<le> length (s_next_buf b)"
    "size_buf b \<le> length (dw_buf b)"
    using i1 i2 i3 i4 i5 sz by (simp_all add: ring_inv_def)
  show "sample b n draw
              = Inr (map (\<lambda>i. s_buf b ! i) draw, map (\<lambda>i. a_buf b ! i) draw,
                     map (\<lambda>i. r_buf b ! i) draw, map (\<lambda>i. s_next_buf b ! i) draw,
                     map (\<lambda>i. dw_buf b ! i) draw)"
    by (rule sample_ok [OF out pos l])
  show len: "length draw = n" using out by (simp add: randint_outcome_def)
  show "\<forall>k<n. \<exists>j<length ts. length ts - C \<le> j
                   \<and> draw ! k < size_buf b
                   \<and> s_buf b ! (draw ! k) = t_s (ts ! j)
                   \<and> a_buf b ! (draw ! k) = t_a (ts ! j)
                   \<and> r_buf b ! (draw ! k) = t_r (ts ! j)
                   \<and> s_next_buf b ! (draw ! k) = t_s_next (ts ! j)
                   \<and> dw_buf b ! (draw ! k) = t_dw (ts ! j)"
  proof (intro allI impI)
    fix k assume k: "k < n"
    let ?i = "draw ! k"
    let ?j = "ring_src C (length ts) ?i"
    have "list_all (\<lambda>i. i < size_buf b) draw" using out by (simp add: randint_outcome_def)
    then have i: "?i < size_buf b" using k len by (simp add: list_all_length)
    then have im: "?i < min (length ts) C" using sz by simp
    have "?j < length ts" "length ts - C \<le> ?j"
      using ring_src_bounds [OF C im] by simp_all
    moreover note i
    moreover have "s_buf b ! ?i = t_s (ts ! ?j)" by (rule ring_inv_slot [OF C i1 im])
    moreover have "a_buf b ! ?i = t_a (ts ! ?j)" by (rule ring_inv_slot [OF C i2 im])
    moreover have "r_buf b ! ?i = t_r (ts ! ?j)" by (rule ring_inv_slot [OF C i3 im])
    moreover have "s_next_buf b ! ?i = t_s_next (ts ! ?j)" by (rule ring_inv_slot [OF C i4 im])
    moreover have "dw_buf b ! ?i = t_dw (ts ! ?j)" by (rule ring_inv_slot [OF C i5 im])
    ultimately show "\<exists>j<length ts. length ts - C \<le> j
                   \<and> draw ! k < size_buf b
                   \<and> s_buf b ! (draw ! k) = t_s (ts ! j)
                   \<and> a_buf b ! (draw ! k) = t_a (ts ! j)
                   \<and> r_buf b ! (draw ! k) = t_r (ts ! j)
                   \<and> s_next_buf b ! (draw ! k) = t_s_next (ts ! j)
                   \<and> dw_buf b ! (draw ! k) = t_dw (ts ! j)"
      by blast
  qed
qed

theorem ReplayBuffer_sample_parallel_witness:
  "add_all (ReplayBuffer_init 1 1 2)
      [\<lparr>t_s = [1], t_a = [1/2], t_r = 3, t_s_next = [2], t_dw = True\<rparr>] = Inr buf0
   \<and> randint_outcome 0 (size_buf buf0) 3 [0, 0, 0]
   \<and> sample buf0 3 [0, 0, 0]
       = Inr ([[1], [1], [1]], [[1/2], [1/2], [1/2]], [3, 3, 3], [[2], [2], [2]], [True, True, True])
   \<and> sample (ReplayBuffer_init 1 1 2) 3 [0, 0, 0] = Inl RandintEmptyRange"
proof -
  have run: "add_all (ReplayBuffer_init 1 1 2)
      [\<lparr>t_s = [1], t_a = [1/2], t_r = 3, t_s_next = [2], t_dw = True\<rparr>] = Inr buf0"
    by (simp add: ReplayBuffer_init_def add_def buf0_def numeral_2_eq_2)
  have run0: "add_all (ReplayBuffer_init 1 1 2) [] = Inr (ReplayBuffer_init 1 1 2)"
    by simp
  have out: "randint_outcome 0 (size_buf buf0) 3 [0, 0, 0]"
    by (simp add: randint_outcome_def buf0_def)
  show ?thesis
    using ReplayBuffer_sample_parallel [OF run, of 3 "[0, 0, 0]"]
      ReplayBuffer_sample_parallel [OF run0, of 3 "[0, 0, 0]"] run out
    by (simp add: buf0_def ReplayBuffer_init_def)
qed

section \<open>Claims about the target critic\<close>

lemma polyak_length: "length (polyak t ps ts) = length ts"
  by (simp add: polyak_def)

lemma polyak_eq:
  assumes "length ps = length ts"
  shows "polyak t ps ts = map (\<lambda>(p, tp). t * p + (1 - t) * tp) (zip ps ts)"
  using assms by (simp add: polyak_def)

lemma polyak_diff:
  assumes "length ps = length ts"
  shows "map (\<lambda>(x, y). x - y) (zip (polyak t ps ts) ps)
       = map (\<lambda>d. (1 - t) * d) (map (\<lambda>(x, y). x - y) (zip ts ps))"
proof (rule nth_equalityI)
  show "length (map (\<lambda>(x, y). x - y) (zip (polyak t ps ts) ps))
      = length (map (\<lambda>d. (1 - t) * d) (map (\<lambda>(x, y). x - y) (zip ts ps)))"
    using assms by (simp add: polyak_length)
next
  fix i assume "i < length (map (\<lambda>(x, y). x - y) (zip (polyak t ps ts) ps))"
  then have i: "i < length ts" using assms by (simp add: polyak_length)
  then have "polyak t ps ts ! i = t * ps ! i + (1 - t) * ts ! i"
    using assms by (simp add: polyak_eq)
  then show "map (\<lambda>(x, y). x - y) (zip (polyak t ps ts) ps) ! i
      = map (\<lambda>d. (1 - t) * d) (map (\<lambda>(x, y). x - y) (zip ts ps)) ! i"
    using i assms by (simp add: polyak_length algebra_simps)
qed

lemma l2_norm_scale: "l2_norm (map (\<lambda>d. c * d) v) = \<bar>c\<bar> * l2_norm v"
proof -
  have "sum_list (map (\<lambda>x. x\<^sup>2) (map (\<lambda>d. c * d) v)) = c\<^sup>2 * sum_list (map (\<lambda>x. x\<^sup>2) v)"
    by (simp add: o_def power_mult_distrib sum_list_const_mult)
  then show ?thesis
    by (simp add: l2_norm_def real_sqrt_mult)
qed

lemma param_dist_soft_update:
  assumes "length (Q_1 online) = length (Q_1 target)"
    and "length (Q_2 online) = length (Q_2 target)"
  shows "param_dist (soft_update t online target) online = \<bar>1 - t\<bar> * param_dist target online"
proof -
  have "map (\<lambda>(x, y). x - y)
          (zip (parameters (soft_update t online target)) (parameters online))
      = map (\<lambda>(x, y). x - y) (zip (polyak t (Q_1 online) (Q_1 target)) (Q_1 online))
        @ map (\<lambda>(x, y). x - y) (zip (polyak t (Q_2 online) (Q_2 target)) (Q_2 online))"
    using assms by (simp add: parameters_def soft_update_def polyak_length)
  also have "\<dots> = map (\<lambda>d. (1 - t) * d)
      (map (\<lambda>(x, y). x - y) (zip (parameters target) (parameters online)))"
    using assms by (simp add: polyak_diff parameters_def)
  finally show ?thesis
    by (simp only: param_dist_def l2_norm_scale)
qed

lemma soft_update_iter_lengths:
  assumes "length (Q_1 online) = length (Q_1 target)"
    and "length (Q_2 online) = length (Q_2 target)"
  shows "length (Q_1 ((soft_update t online ^^ n) target)) = length (Q_1 target)
       \<and> length (Q_2 ((soft_update t online ^^ n) target)) = length (Q_2 target)"
  by (induction n) (simp_all add: soft_update_def polyak_length)

lemma param_dist_soft_update_iter:
  assumes "length (Q_1 online) = length (Q_1 target)"
    and "length (Q_2 online) = length (Q_2 target)"
  shows "param_dist ((soft_update t online ^^ n) target) online
       = \<bar>1 - t\<bar> ^ n * param_dist target online"
proof (induction n)
  case 0
  show ?case by simp
next
  case (Suc n)
  have l: "length (Q_1 online) = length (Q_1 ((soft_update t online ^^ n) target))"
    "length (Q_2 online) = length (Q_2 ((soft_update t online ^^ n) target))"
    using soft_update_iter_lengths [OF assms, where t = t and n = n] assms by simp_all
  have "param_dist ((soft_update t online ^^ Suc n) target) online
      = \<bar>1 - t\<bar> * param_dist ((soft_update t online ^^ n) target) online"
    using param_dist_soft_update [OF l] by simp
  then show ?case by (simp add: Suc.IH)
qed

lemma critic_update_keeps:
  "tau (critic_update th ag s a tq) = tau ag"
  "q_critic_target (critic_update th ag s a tq) = q_critic_target ag"
  by (simp_all add: critic_update_def Let_def split: prod.splits)

lemma actor_update_keeps:
  "tau (actor_update th ag s eps) = tau ag"
  "q_critic_target (actor_update th ag s eps) = q_critic_target ag"
  "q_critic (actor_update th ag s eps) = q_critic ag"
  by (simp_all add: actor_update_def Let_def split: prod.splits)

lemma alpha_update_keeps:
  "tau (alpha_update th ag lp) = tau ag"
  "q_critic_target (alpha_update th ag lp) = q_critic_target ag"
  "q_critic (alpha_update th ag lp) = q_critic ag"
  by (simp_all add: alpha_update_def Let_def split: prod.splits)

lemma robust_block_keeps:
  assumes "robust_block th ag s a r e1 e2 = Inr (ag1, r_opt)"
  shows "tau ag1 = tau ag" and "q_critic_target ag1 = q_critic_target ag"
    and "q_critic ag1 = q_critic ag"
  using assms
  by (auto simp add: robust_block_def Let_def split: sum.splits prod.splits)

lemma target_update_fields:
  "tau (target_update ag) = tau ag"
  "q_critic (target_update ag) = q_critic ag"
  "q_critic_target (target_update ag) = soft_update (tau ag) (q_critic ag) (q_critic_target ag)"
  by (simp_all add: target_update_def)

text \<open>What a successful call of \<^verbatim>\<open>train()\<close> went through.\<close>

lemma train_cases:
  assumes "train th ag dr = Inr ag'"
  obtains s a r s_next dw ag1 r_opt target_Q a_new log_pi_a where
    "sample (replay_buffer ag) (batch_size ag) (d_ind dr) = Inr (s, a, r, s_next, dw)"
    and "if robust ag
         then \<exists>ro. robust_block th ag s a r (d_eps_r dr) (d_eps_sample dr) = Inr (ag1, ro)
                \<and> r_opt = Some ro
         else ag1 = ag \<and> r_opt = None"
    and "Q_target th ag1 r r_opt s_next dw (d_eps_next dr) = Inr target_Q"
    and "Actor_forward (actor (critic_update th ag1 s a target_Q)) s False True (d_eps_cur dr)
           = (a_new, Some log_pi_a)"
    and "ag' = target_update (alpha_update th
                 (actor_update th (critic_update th ag1 s a target_Q) s (d_eps_cur dr)) log_pi_a)"
  using assms unfolding train_def
  by (auto simp add: Let_def split: sum.splits prod.splits option.splits if_splits)

lemma train_target:
  assumes "train th ag dr = Inr ag'"
  shows "tau ag' = tau ag"
    and "q_critic_target ag' = soft_update (tau ag) (q_critic ag') (q_critic_target ag)"
proof -
  obtain s a r s_next dw ag1 r_opt target_Q a_new log_pi_a where
    rb: "if robust ag
         then \<exists>ro. robust_block th ag s a r (d_eps_r dr) (d_eps_sample dr) = Inr (ag1, ro)
                \<and> r_opt = Some ro
         else ag1 = ag \<and> r_opt = None"
    and ag': "ag' = target_update (alpha_update th
                 (actor_update th (critic_update th ag1 s a target_Q) s (d_eps_cur dr)) log_pi_a)"
    using assms by (rule train_cases)
  have k: "tau ag1 = tau ag \<and> q_critic_target ag1 = q_critic_target ag"
  proof (cases "robust ag")
    case True
    then obtain ro where "robust_block th ag s a r (d_eps_r dr) (d_eps_sample dr) = Inr (ag1, ro)"
      using rb by auto
    then show ?thesis using robust_block_keeps by blast
  next
    case False
    then show ?thesis using rb by simp
  qed
  show "tau ag' = tau ag"
    by (simp add: ag' target_update_fields alpha_update_keeps actor_update_keeps
        critic_update_keeps k)
  show "q_critic_target ag' = soft_update (tau ag) (q_critic ag') (q_critic_target ag)"
    by (simp add: ag' target_update_fields alpha_update_keeps actor_update_keeps
        critic_update_keeps k)
qed

lemma parameters_soft_update:
  assumes "length (Q_1 online) = length (Q_1 target)"
    and "length (Q_2 online) = length (Q_2 target)"
  shows "parameters (soft_update t online target)
       = map (\<lambda>(p, tp). t * p + (1 - t) * tp) (zip (parameters online) (parameters target))"
  using assms by (simp add: parameters_def soft_update_def polyak_eq)

text \<open>
  C6. Construction sets \<open>tau = 0.005\<close> and makes the target critic a copy of the online
  critic. Whatever the optimizers do, a successful \<^verbatim>\<open>train()\<close> leaves \<open>tau\<close> unchanged and
  changes the target critic in one way only: its new value is the soft update of its old
  value towards the online critic as \<^verbatim>\<open>train()\<close> leaves it, that is
  \<open>tau * online + (1 - tau) * target\<close> on every parameter. With the online parameters held
  fixed, \<open>n\<close> soft updates with a coefficient \<open>t \<le> 1\<close> (0.005 is one) multiply the Euclidean
  distance between target and online parameters by \<open>(1 - t) ^ n\<close>.
\<close>

theorem target_soft_update:
  "(SAC_init kw = Inr ag1 \<longrightarrow> tau ag1 = 0.005 \<and> q_critic_target ag1 = q_critic ag1)
   \<and> (train th ag dr = Inr ag' \<longrightarrow>
        tau ag' = tau ag
        \<and> q_critic_target ag' = soft_update (tau ag) (q_critic ag') (q_critic_target ag))
   \<and> (length (Q_1 online) = length (Q_1 target) \<and> length (Q_2 online) = length (Q_2 target) \<longrightarrow>
        parameters (soft_update t online target)
          = map (\<lambda>(p, tp). t * p + (1 - t) * tp) (zip (parameters online) (parameters target))
        \<and> (t \<le> 1 \<longrightarrow>
             param_dist ((soft_update t online ^^ n) target) online
               = (1 - t) ^ n * param_dist target online
             \<and> param_dist ((soft_update t online ^^ n) target) online
               \<le> (1 - t) ^ n * param_dist target online))"
proof (intro conjI impI)
  assume "SAC_init kw = Inr ag1"
  then show "tau ag1 = 0.005" and "q_critic_target ag1 = q_critic ag1"
    by (auto simp add: SAC_init_def split: sum.splits)
next
  assume "train th ag dr = Inr ag'"
  then show "tau ag' = tau ag"
    and "q_critic_target ag' = soft_update (tau ag) (q_critic ag') (q_critic_target ag)"
    by (rule train_target)+
next
  assume l: "length (Q_1 online) = length (Q_1 target) \<and> length (Q_2 online) = length (Q_2 target)"
  then show "parameters (soft_update t online target)
          = map (\<lambda>(p, tp). t * p + (1 - t) * tp) (zip (parameters online) (parameters target))"
    by (simp add: parameters_soft_update)
  assume t: "t \<le> 1"
  then have "\<bar>1 - t\<bar> = 1 - t" by simp
  then show eq: "param_dist ((soft_update t online ^^ n) target) online
               = (1 - t) ^ n * param_dist target online"
    using param_dist_soft_update_iter [where online = online and target = target and t = t and n = n] l by simp
  then show "param_dist ((soft_update t online ^^ n) target) online
               \<le> (1 - t) ^ n * param_dist target online"
    by simp
qed

lemma train_ag0: "\<exists>ag'. train th0 (ag0 False ''continuous'') dr0 = Inr ag'"
  by (simp add: train_def ag0_def dr0_def th0_def buf0_def sample_def randint_def index_rows_def
      Q_target_def Actor_forward_def Let_def critic_update_def target_update_def
      actor_update_def alpha_update_def split: prod.splits)

theorem target_soft_update_witness:
  "tau (ag0 False ''continuous'') = 0.005
   \<and> (\<exists>ag'. train th0 (ag0 False ''continuous'') dr0 = Inr ag'
         \<and> q_critic ag' = \<lparr> Q_1 = [2], Q_2 = [2] \<rparr>
         \<and> q_critic_target ag' = \<lparr> Q_1 = [0.005 * 2 + 0.995 * 5], Q_2 = [0.005 * 2 + 0.995 * 4] \<rparr>)
   \<and> (\<exists>ag1. SAC_init (kw0 3 3) = Inr ag1 \<and> tau ag1 = 0.005)
   \<and> param_dist ((soft_update 0.005 \<lparr> Q_1 = [1], Q_2 = [2] \<rparr> ^^ 3) \<lparr> Q_1 = [5], Q_2 = [4] \<rparr>)
         \<lparr> Q_1 = [1], Q_2 = [2] \<rparr>
       \<le> (1 - 0.005) ^ 3 * param_dist \<lparr> Q_1 = [5], Q_2 = [4] \<rparr> \<lparr> Q_1 = [1], Q_2 = [2] \<rparr>"
proof -
  obtain ag' where tr: "train th0 (ag0 False ''continuous'') dr0 = Inr ag'"
    using train_ag0 by blast
  obtain ag1 where ini: "SAC_init (kw0 3 3) = Inr ag1"
    by (simp add: SAC_init_def kw0_def robust_delta_def assert_delta_def)
  have qc: "q_critic ag' = \<lparr> Q_1 = [2], Q_2 = [2] \<rparr>"
    using tr
    by (auto simp add: train_def ag0_def dr0_def th0_def buf0_def sample_def randint_def
      index_rows_def Q_target_def Actor_forward_def Let_def critic_update_def target_update_def
      actor_update_def alpha_update_def split: prod.splits)
  show ?thesis
    using target_soft_update [of "kw0 3 3" ag1 th0 "ag0 False ''continuous''" dr0 ag'
        "\<lparr> Q_1 = [1], Q_2 = [2] \<rparr>" "\<lparr> Q_1 = [5], Q_2 = [4] \<rparr>" "0.005" 3] tr ini qc
    by (auto simp add: ag0_def soft_update_def polyak_def)
qed

section \<open>Claims about the critic target and the robust reward\<close>

lemma bellman_length:
  "length (bellman gm al ru dw tq lp)
     = min (length ru) (min (length dw) (min (length tq) (length lp)))"
  by (simp add: bellman_def)

lemma bellman_nth:
  assumes "i < length (bellman gm al ru dw tq lp)"
  shows "bellman gm al ru dw tq lp ! i
       = map (\<lambda>x. ru ! i + (if dw ! i then 0 else 1) * gm * (x - al * lp ! i)) (tq ! i)"
  using assms by (simp add: bellman_def)

lemma min_rows_nth:
  assumes "i < length q1" and "i < length q2"
  shows "map (\<lambda>(a, b). map (\<lambda>(x, y). min x y) (zip a b)) (zip q1 q2) ! i
       = map (\<lambda>(x, y). min x y) (zip (q1 ! i) (q2 ! i))"
  using assms by simp

lemma Actor_forward_Some:
  "\<exists>lp. snd (Actor_forward net state det True eps) = Some lp \<and> length lp = length state"
  by (simp add: Actor_forward_def Let_def)

lemma Actor_forward_length:
  "length (fst (Actor_forward net state det wl eps)) = length state"
  by (simp add: Actor_forward_def Let_def)

lemma Double_Q_Critic_forward_length:
  assumes "Double_Q_Critic_forward qn cr state action = (q1, q2)"
  shows "length q1 = min (length state) (length action)"
    and "length q2 = min (length state) (length action)"
  using assms by (auto simp add: Double_Q_Critic_forward_def Let_def)

lemma sample_lengths:
  assumes "sample b n draw = Inr (s, a, r, s_next, dw)"
  shows "length s = length (take n draw)" and "length a = length (take n draw)"
    and "length r = length (take n draw)" and "length s_next = length (take n draw)"
    and "length dw = length (take n draw)"
  using assms
  by (auto simp add: sample_def randint_def index_rows_def split: sum.splits if_splits)

lemma Q_target_unfold:
  assumes q: "Q_target th ag r r_opt s_next dw eps = Inr y"
    and a: "Actor_forward (actor ag) s_next False True eps = (a_next, olp)"
    and c: "Double_Q_Critic_forward (qnet th) (q_critic_target ag) s_next a_next = (tQ1, tQ2)"
  shows "\<exists>lp ru. olp = Some lp \<and> (if robust ag then r_opt = Some ru else ru = r)
          \<and> y = bellman (gamma ag) (alpha ag) ru dw
                  (map (\<lambda>(q1, q2). map (\<lambda>(x, y). min x y) (zip q1 q2)) (zip tQ1 tQ2)) lp"
  using q unfolding Q_target_def a
  by (auto simp add: c Let_def split: option.splits if_splits)

lemma Q_target_elementwise:
  assumes q: "Q_target th ag r r_opt s_next dw eps = Inr y"
    and a: "Actor_forward (actor ag) s_next False True eps = (a_next, Some lp)"
    and c: "Double_Q_Critic_forward (qnet th) (q_critic_target ag) s_next a_next = (tQ1, tQ2)"
  shows "\<exists>ru. (if robust ag then r_opt = Some ru else ru = r)
      \<and> length y = min (length ru) (min (length dw) (length s_next))
      \<and> (\<forall>i<length y. length (y ! i) = min (length (tQ1 ! i)) (length (tQ2 ! i))
           \<and> (\<forall>j<length (y ! i).
                 y ! i ! j = y_spec (gamma ag) (alpha ag) (ru ! i) (dw ! i)
                               (tQ1 ! i ! j) (tQ2 ! i ! j) (lp ! i)
                 \<and> (dw ! i \<longrightarrow> y ! i ! j = ru ! i)))"
proof -
  let ?tq = "map (\<lambda>(q1, q2). map (\<lambda>(x, y). min x y) (zip q1 q2)) (zip tQ1 tQ2)"
  obtain ru where ru: "if robust ag then r_opt = Some ru else ru = r"
    and y: "y = bellman (gamma ag) (alpha ag) ru dw ?tq lp"
    using Q_target_unfold [OF q a c] by auto
  have la: "length a_next = length s_next"
    using Actor_forward_length [of "actor ag" s_next False True eps] a by simp
  have llp: "length lp = length s_next"
    using Actor_forward_Some [of "actor ag" s_next False eps] a by simp
  have lq: "length tQ1 = length s_next" "length tQ2 = length s_next"
    using Double_Q_Critic_forward_length [OF c] la by simp_all
  have len: "length y = min (length ru) (min (length dw) (length s_next))"
    by (simp add: y bellman_length lq llp)
  have rows: "\<forall>i<length y. length (y ! i) = min (length (tQ1 ! i)) (length (tQ2 ! i))
           \<and> (\<forall>j<length (y ! i).
                 y ! i ! j = y_spec (gamma ag) (alpha ag) (ru ! i) (dw ! i)
                               (tQ1 ! i ! j) (tQ2 ! i ! j) (lp ! i)
                 \<and> (dw ! i \<longrightarrow> y ! i ! j = ru ! i))"
  proof (intro allI impI)
    fix i assume i: "i < length y"
    then have isn: "i < length s_next" using len by simp
    have row: "y ! i = map (\<lambda>x. ru ! i + (if dw ! i then 0 else 1) * gamma ag * (x - alpha ag * lp ! i))
                        (?tq ! i)"
      using i unfolding y by (rule bellman_nth)
    have tq: "?tq ! i = map (\<lambda>(x, y). min x y) (zip (tQ1 ! i) (tQ2 ! i))"
      using isn lq by (simp add: min_rows_nth)
    have l: "length (y ! i) = min (length (tQ1 ! i)) (length (tQ2 ! i))"
      by (simp add: row tq)
    have el: "\<forall>j<length (y ! i).
                 y ! i ! j = y_spec (gamma ag) (alpha ag) (ru ! i) (dw ! i)
                               (tQ1 ! i ! j) (tQ2 ! i ! j) (lp ! i)
                 \<and> (dw ! i \<longrightarrow> y ! i ! j = ru ! i)"
      using l by (simp add: row tq y_spec_def)
    show "length (y ! i) = min (length (tQ1 ! i)) (length (tQ2 ! i))
           \<and> (\<forall>j<length (y ! i).
                 y ! i ! j = y_spec (gamma ag) (alpha ag) (ru ! i) (dw ! i)
                               (tQ1 ! i ! j) (tQ2 ! i ! j) (lp ! i)
                 \<and> (dw ! i \<longrightarrow> y ! i ! j = ru ! i))"
      using l el by blast
  qed
  show ?thesis using ru len rows by blast
qed

lemma robust_block_keeps_policy:
  assumes "robust_block th ag s a r e1 e2 = Inr (ag1, r_opt)"
  shows "actor ag1 = actor ag" and "gamma ag1 = gamma ag" and "alpha ag1 = alpha ag"
    and "robust ag1 = robust ag" and "q_critic_optimizer ag1 = q_critic_optimizer ag"
    and "delta ag1 = delta ag"
  using assms
  by (auto simp add: robust_block_def Let_def split: sum.splits prod.splits)

lemma critic_update_q:
  "q_critic (critic_update th ag s a tq)
     = fst (adam_critic th (q_critic_optimizer ag) (q_critic ag) (q_loss th s a tq))"
  by (simp add: critic_update_def Let_def split: prod.splits)

lemma critic_target_of_train:
  assumes "train th ag dr = Inr ag'"
  shows "\<exists>s a r s_next dw r_used a_next lp tQ1 tQ2 y.
      sample (replay_buffer ag) (batch_size ag) (d_ind dr) = Inr (s, a, r, s_next, dw)
    \<and> (if robust ag
        then \<exists>ag1. robust_block th ag s a r (d_eps_r dr) (d_eps_sample dr) = Inr (ag1, r_used)
        else r_used = r)
    \<and> Actor_forward (actor ag) s_next False True (d_eps_next dr) = (a_next, Some lp)
    \<and> Double_Q_Critic_forward (qnet th) (q_critic_target ag) s_next a_next = (tQ1, tQ2)
    \<and> length y = min (length r_used) (length s_next)
    \<and> (\<forall>i<length y. length (y ! i) = min (length (tQ1 ! i)) (length (tQ2 ! i))
           \<and> (\<forall>j<length (y ! i).
                 y ! i ! j = y_spec (gamma ag) (alpha ag) (r_used ! i) (dw ! i)
                               (tQ1 ! i ! j) (tQ2 ! i ! j) (lp ! i)
                 \<and> (dw ! i \<longrightarrow> y ! i ! j = r_used ! i)))
    \<and> q_critic ag' = fst (adam_critic th (q_critic_optimizer ag) (q_critic ag) (q_loss th s a y))"
proof -
  obtain s a r s_next dw ag1 r_opt y a_new log_pi_a where
    smp: "sample (replay_buffer ag) (batch_size ag) (d_ind dr) = Inr (s, a, r, s_next, dw)"
    and rb: "if robust ag
         then \<exists>ro. robust_block th ag s a r (d_eps_r dr) (d_eps_sample dr) = Inr (ag1, ro)
                \<and> r_opt = Some ro
         else ag1 = ag \<and> r_opt = None"
    and q: "Q_target th ag1 r r_opt s_next dw (d_eps_next dr) = Inr y"
    and ag': "ag' = target_update (alpha_update th
                 (actor_update th (critic_update th ag1 s a y) s (d_eps_cur dr)) log_pi_a)"
    using assms by (rule train_cases)
  have same: "actor ag1 = actor ag \<and> gamma ag1 = gamma ag \<and> alpha ag1 = alpha ag
      \<and> robust ag1 = robust ag \<and> q_critic_optimizer ag1 = q_critic_optimizer ag
      \<and> q_critic ag1 = q_critic ag \<and> q_critic_target ag1 = q_critic_target ag"
  proof (cases "robust ag")
    case True
    then obtain ro where rbk: "robust_block th ag s a r (d_eps_r dr) (d_eps_sample dr) = Inr (ag1, ro)"
      using rb by auto
    show ?thesis using robust_block_keeps [OF rbk] robust_block_keeps_policy [OF rbk] by simp
  next
    case False
    then show ?thesis using rb by simp
  qed
  obtain a_next lp where act: "Actor_forward (actor ag1) s_next False True (d_eps_next dr)
       = (a_next, Some lp)"
    using Actor_forward_Some [of "actor ag1" s_next False "d_eps_next dr"]
    by (metis prod.collapse)
  obtain tQ1 tQ2 where cr:
    "Double_Q_Critic_forward (qnet th) (q_critic_target ag1) s_next a_next = (tQ1, tQ2)"
    by (metis prod.collapse)
  obtain ru where ru: "if robust ag1 then r_opt = Some ru else ru = r"
    and len: "length y = min (length ru) (min (length dw) (length s_next))"
    and rows: "\<forall>i<length y. length (y ! i) = min (length (tQ1 ! i)) (length (tQ2 ! i))
           \<and> (\<forall>j<length (y ! i).
                 y ! i ! j = y_spec (gamma ag1) (alpha ag1) (ru ! i) (dw ! i)
                               (tQ1 ! i ! j) (tQ2 ! i ! j) (lp ! i)
                 \<and> (dw ! i \<longrightarrow> y ! i ! j = ru ! i))"
    using Q_target_elementwise [OF q act cr] by blast
  have used: "if robust ag
        then \<exists>ag1. robust_block th ag s a r (d_eps_r dr) (d_eps_sample dr) = Inr (ag1, ru)
        else ru = r"
    using rb ru same by (auto split: if_splits)
  have ldw: "length dw = length s_next"
    using sample_lengths [OF smp] by simp
  have len': "length y = min (length ru) (length s_next)" using len ldw by simp
  have qc: "q_critic ag' = fst (adam_critic th (q_critic_optimizer ag) (q_critic ag) (q_loss th s a y))"
    using same
    by (simp add: ag' target_update_fields alpha_update_keeps actor_update_keeps critic_update_q)
  show ?thesis
    using smp used act cr len' rows qc same by (metis (no_types, lifting))
qed

lemma Q_target_succeeds:
  assumes "robust ag \<longrightarrow> r_opt \<noteq> None"
  shows "\<exists>y. Q_target th ag r r_opt s_next dw eps = Inr y"
proof -
  obtain a_next lp where act: "Actor_forward (actor ag) s_next False True eps = (a_next, Some lp)"
    using Actor_forward_Some [of "actor ag" s_next False eps] by (metis prod.collapse)
  obtain q1 q2 where cr:
    "Double_Q_Critic_forward (qnet th) (q_critic_target ag) s_next a_next = (q1, q2)"
    by (metis prod.collapse)
  show ?thesis
    unfolding Q_target_def act using assms
    by (auto simp add: cr Let_def split: option.splits)
qed

lemma robust_block_returns:
  assumes c0: "rtype (reward ag) = ''continuous''"
    and c1: "rtype (fst (adam_reward th (reward_optimizer ag) (reward ag) (r_loss s a r e1)))
               = ''continuous''"
  shows "\<exists>ag1 ro. robust_block th ag s a r e1 e2 = Inr (ag1, ro)"
proof -
  obtain rw rost where st:
    "adam_reward th (reward_optimizer ag) (reward ag) (r_loss s a r e1) = (rw, rost)"
    by (cases "adam_reward th (reward_optimizer ag) (reward ag) (r_loss s a r e1)")
  have c: "rtype rw = ''continuous''" using c1 st by simp
  obtain r_pred where f: "Reward_forward (reward ag) s a e1 = Inr r_pred"
    using c0 by (simp add: Reward_forward_def Let_def)
  obtain R where smp: "Reward_sample rw s a 50 e2 = Inr R"
    using c by (simp add: Reward_sample_def Let_def)
  obtain bt bost where lp:
    "dual_loop 10 (adam_beta th) R (delta ag) (beta ag, beta_optimizer ag) = (bt, bost)"
    by (cases "dual_loop 10 (adam_beta th) R (delta ag) (beta ag, beta_optimizer ag)")
  show ?thesis
    unfolding robust_block_def by (simp add: f st smp lp Let_def)
qed

text \<open>A call of \<^verbatim>\<open>train()\<close> returns when the batch can be sampled and, in robust mode,
  the reward model is continuous before and after its step.\<close>

lemma train_returns:
  assumes smp: "sample (replay_buffer ag) (batch_size ag) (d_ind dr) = Inr (s, a, r, s_next, dw)"
    and rw: "robust ag \<longrightarrow> rtype (reward ag) = ''continuous''
        \<and> rtype (fst (adam_reward th (reward_optimizer ag) (reward ag) (r_loss s a r (d_eps_r dr))))
            = ''continuous''"
  shows "\<exists>ag'. train th ag dr = Inr ag'"
proof (cases "robust ag")
  case True
  obtain ag1 ro where rb: "robust_block th ag s a r (d_eps_r dr) (d_eps_sample dr) = Inr (ag1, ro)"
    using rw True robust_block_returns by blast
  obtain y where q: "Q_target th ag1 r (Some ro) s_next dw (d_eps_next dr) = Inr y"
    using Q_target_succeeds [of ag1 "Some ro" th r s_next dw "d_eps_next dr"] by auto
  show ?thesis
    unfolding train_def smp
    by (simp add: True rb q Let_def Actor_forward_def split: prod.splits)
next
  case False
  obtain y where q: "Q_target th ag r None s_next dw (d_eps_next dr) = Inr y"
    using False Q_target_succeeds [of ag None th r s_next dw "d_eps_next dr"] by auto
  show ?thesis
    unfolding train_def smp
    by (simp add: False q Let_def Actor_forward_def split: prod.splits)
qed

text \<open>
  C2. A call of \<^verbatim>\<open>train()\<close> in non-robust mode returns whenever the batch can be sampled
  (in robust mode, when moreover the reward model is continuous). In every call of \<^verbatim>\<open>train()\<close> on the sampled batch
  \<open>(s, a, r, s_next, dw)\<close>, the critic is stepped on the loss against a target \<open>y\<close> that is a
  fixed value in that loss, with
  \<open>y = r_used + (1 - done) * gamma * (min target_Q1 target_Q2 - alpha * log_pi)\<close> on every
  element; \<open>a_next\<close> and \<open>log_pi\<close> come from the actor as it is at the start of the call, at
  \<open>s_next\<close>; the two target values from the target critic at \<open>(s_next, a_next)\<close>; \<open>r_used\<close> is
  the result of the robust block in robust mode and the sampled reward \<open>r\<close> otherwise; and
  where \<open>done\<close> holds, \<open>y = r_used\<close>.
\<close>

theorem critic_target_bellman:
  "(sample (replay_buffer ag) (batch_size ag) (d_ind dr) = Inr (s0, a0, r0, sn0, dw0)
      \<and> (robust ag \<longrightarrow> rtype (reward ag) = ''continuous''
            \<and> rtype (fst (adam_reward th (reward_optimizer ag) (reward ag)
                            (r_loss s0 a0 r0 (d_eps_r dr)))) = ''continuous'')
      \<longrightarrow> (\<exists>ag2. train th ag dr = Inr ag2))
   \<and> (train th ag dr = Inr ag' \<longrightarrow>
       (\<exists>s a r s_next dw r_used a_next lp tQ1 tQ2 y.
          sample (replay_buffer ag) (batch_size ag) (d_ind dr) = Inr (s, a, r, s_next, dw)
        \<and> (if robust ag
            then \<exists>ag1. robust_block th ag s a r (d_eps_r dr) (d_eps_sample dr) = Inr (ag1, r_used)
            else r_used = r)
        \<and> Actor_forward (actor ag) s_next False True (d_eps_next dr) = (a_next, Some lp)
        \<and> Double_Q_Critic_forward (qnet th) (q_critic_target ag) s_next a_next = (tQ1, tQ2)
        \<and> length y = min (length r_used) (length s_next)
        \<and> (\<forall>i<length y. length (y ! i) = min (length (tQ1 ! i)) (length (tQ2 ! i))
               \<and> (\<forall>j<length (y ! i).
                     y ! i ! j = y_spec (gamma ag) (alpha ag) (r_used ! i) (dw ! i)
                                   (tQ1 ! i ! j) (tQ2 ! i ! j) (lp ! i)
                     \<and> (dw ! i \<longrightarrow> y ! i ! j = r_used ! i)))
        \<and> q_critic ag' = fst (adam_critic th (q_critic_optimizer ag) (q_critic ag)
                                 (q_loss th s a y))))"
proof (intro conjI impI)
  assume "sample (replay_buffer ag) (batch_size ag) (d_ind dr) = Inr (s0, a0, r0, sn0, dw0)
      \<and> (robust ag \<longrightarrow> rtype (reward ag) = ''continuous''
            \<and> rtype (fst (adam_reward th (reward_optimizer ag) (reward ag)
                            (r_loss s0 a0 r0 (d_eps_r dr)))) = ''continuous'')"
  then show "\<exists>ag2. train th ag dr = Inr ag2"
    using train_returns [of ag dr s0 a0 r0 sn0 dw0 th] by blast
next
  assume "train th ag dr = Inr ag'"
  then show "\<exists>s a r s_next dw r_used a_next lp tQ1 tQ2 y.
          sample (replay_buffer ag) (batch_size ag) (d_ind dr) = Inr (s, a, r, s_next, dw)
        \<and> (if robust ag
            then \<exists>ag1. robust_block th ag s a r (d_eps_r dr) (d_eps_sample dr) = Inr (ag1, r_used)
            else r_used = r)
        \<and> Actor_forward (actor ag) s_next False True (d_eps_next dr) = (a_next, Some lp)
        \<and> Double_Q_Critic_forward (qnet th) (q_critic_target ag) s_next a_next = (tQ1, tQ2)
        \<and> length y = min (length r_used) (length s_next)
        \<and> (\<forall>i<length y. length (y ! i) = min (length (tQ1 ! i)) (length (tQ2 ! i))
               \<and> (\<forall>j<length (y ! i).
                     y ! i ! j = y_spec (gamma ag) (alpha ag) (r_used ! i) (dw ! i)
                                   (tQ1 ! i ! j) (tQ2 ! i ! j) (lp ! i)
                     \<and> (dw ! i \<longrightarrow> y ! i ! j = r_used ! i)))
        \<and> q_critic ag' = fst (adam_critic th (q_critic_optimizer ag) (q_critic ag)
                                 (q_loss th s a y))"
    by (rule critic_target_of_train)
qed

lemma sample_buf0: "sample buf0 1 [0] = Inr ([[1]], [[1/2]], [3], [[2]], [True])"
  by (simp add: sample_def randint_def index_rows_def buf0_def)

theorem critic_target_bellman_witness:
  "\<exists>ag' y. train th0 (ag0 False ''continuous'') dr0 = Inr ag'
      \<and> length y = 1 \<and> length (y ! 0) = 1 \<and> y ! 0 ! 0 = 3
      \<and> q_critic ag' = fst (adam_critic th0 () \<lparr>Q_1 = [1], Q_2 = [2]\<rparr> (q_loss th0 [[1]] [[1/2]] y))"
proof -
  have smp0: "sample (replay_buffer (ag0 False ''continuous'')) (batch_size (ag0 False ''continuous''))
               (d_ind dr0) = Inr ([[1]], [[1/2]], [3], [[2]], [True])"
    using sample_buf0 by (simp add: ag0_def dr0_def)
  have nrob: "\<not> robust (ag0 False ''continuous'')" by (simp add: ag0_def)
  obtain ag' where tr: "train th0 (ag0 False ''continuous'') dr0 = Inr ag'"
    using critic_target_bellman [where ag = "ag0 False ''continuous''" and dr = dr0 and th = th0
        and ?s0.0 = "[[1]]" and ?a0.0 = "[[1/2]]" and ?r0.0 = "[3]" and ?sn0.0 = "[[2]]"
        and ?dw0.0 = "[True]"] smp0 nrob
    by blast
  obtain s a r s_next dw r_used a_next lp tQ1 tQ2 y where
    smp: "sample (replay_buffer (ag0 False ''continuous'')) (batch_size (ag0 False ''continuous''))
            (d_ind dr0) = Inr (s, a, r, s_next, dw)"
    and ru: "if robust (ag0 False ''continuous'')
        then \<exists>ag1. robust_block th0 (ag0 False ''continuous'') s a r (d_eps_r dr0) (d_eps_sample dr0)
                     = Inr (ag1, r_used)
        else r_used = r"
    and act: "Actor_forward (actor (ag0 False ''continuous'')) s_next False True (d_eps_next dr0)
                = (a_next, Some lp)"
    and cr: "Double_Q_Critic_forward (qnet th0) (q_critic_target (ag0 False ''continuous''))
               s_next a_next = (tQ1, tQ2)"
    and len: "length y = min (length r_used) (length s_next)"
    and rows: "\<forall>i<length y. length (y ! i) = min (length (tQ1 ! i)) (length (tQ2 ! i))
           \<and> (\<forall>j<length (y ! i).
                 y ! i ! j = y_spec (gamma (ag0 False ''continuous'')) (alpha (ag0 False ''continuous''))
                               (r_used ! i) (dw ! i) (tQ1 ! i ! j) (tQ2 ! i ! j) (lp ! i)
                 \<and> (dw ! i \<longrightarrow> y ! i ! j = r_used ! i))"
    and qc: "q_critic ag' = fst (adam_critic th0 (q_critic_optimizer (ag0 False ''continuous''))
                (q_critic (ag0 False ''continuous'')) (q_loss th0 s a y))"
    using critic_target_bellman [of "ag0 False ''continuous''" dr0 "[]" "[]" "[]" "[]" "[]" th0 ag'] tr
    by blast
  have b: "s = [[1]]" "a = [[1/2]]" "r = [3]" "s_next = [[2]]" "dw = [True]"
    using smp sample_buf0 by (simp_all add: ag0_def dr0_def)
  have r_used: "r_used = [3]" using ru b by (simp add: ag0_def)
  have an: "length a_next = 1"
    using Actor_forward_length [of "actor (ag0 False ''continuous'')" s_next False True "d_eps_next dr0"]
      act b by simp
  have tq: "tQ1 = [[5]]" "tQ2 = [[4]]"
    using cr an b
    by (auto simp add: Double_Q_Critic_forward_def ag0_def th0_def Let_def length_Suc_conv)
  have l1: "length y = 1" using len r_used b by simp
  have l2: "length (y ! 0) = 1" using rows l1 tq by simp
  have v: "y ! 0 ! 0 = 3" using rows l1 l2 b r_used by simp
  have "q_critic ag' = fst (adam_critic th0 () \<lparr>Q_1 = [1], Q_2 = [2]\<rparr> (q_loss th0 [[1]] [[1/2]] y))"
    using qc b by (simp add: ag0_def)
  then show ?thesis using tr l1 l2 v by blast
qed











end
